theory Spec2Isabelle
  imports Main "HOL-Library.Sublist"
begin

section \<open>Strings\<close>

text \<open>
  A Go string is a sequence of bytes, here a \<^typ>\<open>string\<close>; text is UTF-8, so a byte with
  its top bit set belongs to a character beyond ASCII. The functions of package \<^verbatim>\<open>strings\<close>
  that the analyzer calls are written as the library writes them: a path for ASCII, which is
  spelled out here, and a path through the tables of package \<^verbatim>\<open>unicode\<close>. The tables are not
  part of the repository; the three functions that go through them are parameters, and
  everything proved below holds for whatever they compute:
  \<^item> \<open>MapToLower\<close> is \<^verbatim>\<open>strings.Map(unicode.ToLower, s)\<close>;
  \<^item> \<open>TrimFuncIsSpace\<close> is \<^verbatim>\<open>strings.TrimFunc(s, unicode.IsSpace)\<close>;
  \<^item> \<open>TrimRightFuncIsSpace\<close> is \<^verbatim>\<open>strings.TrimRightFunc(s, unicode.IsSpace)\<close>.
\<close>

record unicode_tables =
  MapToLower :: "string \<Rightarrow> string"
  TrimFuncIsSpace :: "string \<Rightarrow> string"
  TrimRightFuncIsSpace :: "string \<Rightarrow> string"

text \<open>A byte below \<^verbatim>\<open>utf8.RuneSelf\<close> (0x80) has its top bit clear.\<close>

definition isASCII :: "string \<Rightarrow> bool" where
  "isASCII s = (\<forall>c\<in>set s. \<not> digit7 c)"

definition toLowerByte :: "char \<Rightarrow> char" where
  "toLowerByte c =
     (case map_of (zip ''ABCDEFGHIJKLMNOPQRSTUVWXYZ'' ''abcdefghijklmnopqrstuvwxyz'') c of
        None \<Rightarrow> c
      | Some l \<Rightarrow> l)"

text \<open>\<^verbatim>\<open>strings.ToLower\<close>: a string of ASCII bytes has \<^verbatim>\<open>A\<close>..\<^verbatim>\<open>Z\<close> replaced byte by byte;
  any other string is mapped rune by rune through \<^verbatim>\<open>unicode.ToLower\<close>.\<close>

definition ToLower :: "unicode_tables \<Rightarrow> string \<Rightarrow> string" where
  "ToLower X s = (if isASCII s then map toLowerByte s else MapToLower X s)"

text \<open>The bytes marked in the library's table \<^verbatim>\<open>asciiSpace\<close>: tab, line feed, vertical
  tab, form feed, carriage return, space.\<close>

definition asciiSpace :: "char \<Rightarrow> bool" where
  "asciiSpace c = (c \<in> set [CHR 0x09, CHR 0x0A, CHR 0x0B, CHR 0x0C, CHR 0x0D, CHR '' ''])"

text \<open>
  \<^verbatim>\<open>strings.TrimSpace\<close>: ASCII white space is skipped from the front; if the scan meets a
  byte beyond ASCII the rest is handed to \<^verbatim>\<open>TrimFunc\<close>. Otherwise ASCII white space is
  skipped from the back; if that scan meets a byte beyond ASCII, what is left is handed to
  \<^verbatim>\<open>TrimRightFunc\<close>.
\<close>

definition TrimSpace :: "unicode_tables \<Rightarrow> string \<Rightarrow> string" where
  "TrimSpace X s =
     (case dropWhile asciiSpace s of
        [] \<Rightarrow> []
      | c # rest \<Rightarrow>
          if digit7 c then TrimFuncIsSpace X (c # rest)
          else
            (case dropWhile asciiSpace (rev (c # rest)) of
               [] \<Rightarrow> []
             | d # front \<Rightarrow>
                 if digit7 d then TrimRightFuncIsSpace X (rev (d # front))
                 else rev (d # front)))"

fun Contains :: "string \<Rightarrow> string \<Rightarrow> bool" where
  "Contains [] substr = (substr = [])"
| "Contains (c # s) substr = (take (length substr) (c # s) = substr \<or> Contains s substr)"

section \<open>The parsed document\<close>

text \<open>
  \<^verbatim>\<open>html.Node\<close> of golang.org/x/net/html: a node has a type, its data (the tag name of an
  element, the text of a text node, the name of a doctype), its attributes in source order,
  and its children. The chain \<^verbatim>\<open>FirstChild\<close>, \<^verbatim>\<open>NextSibling\<close>, ... is the list of children.
\<close>

datatype NodeType =
  ErrorNode | TextNode | DocumentNode | ElementNode | CommentNode | DoctypeNode | RawNode

datatype Attribute = Attribute (Namespace: string) (Key: string) (Val: string)

datatype Node = Node (Type: NodeType) (Data: string) (Attr: "Attribute list") (Children: "Node list")

definition FirstChild :: "Node \<Rightarrow> Node option" where
  "FirstChild n = (case Children n of [] \<Rightarrow> None | c # _ \<Rightarrow> Some c)"

section \<open>Addresses\<close>

text \<open>
  \<^verbatim>\<open>url.URL\<close> with the fields the analyzer reads (\<^verbatim>\<open>Scheme\<close>, \<^verbatim>\<open>Host\<close>) and those that
  tell two addresses apart. Package \<^verbatim>\<open>net/url\<close> itself is not part of the repository:
  its three functions the analyzer calls are parameters of the model, and everything
  proved below holds for whatever they compute.
\<close>

record url_URL =
  Scheme :: string
  Opaque :: string
  Host :: string
  Path :: string
  RawQuery :: string
  Fragment :: string

datatype error =
  LibError string
  | InvalidURL error
  | FetchFailed error
  | HTTPStatus int
  | ParsingHTML error
  | TooManyRedirects

record net_url =
  Parse :: "string \<Rightarrow> error + url_URL"
  ResolveReference :: "url_URL \<Rightarrow> url_URL \<Rightarrow> url_URL"
  URLString :: "url_URL \<Rightarrow> string"

section \<open>The result record\<close>

text \<open>
  \<^verbatim>\<open>Result\<close> of types.go. The counters are Go \<^verbatim>\<open>int\<close>s (64 bits); they count nodes of a
  tree held in memory, so they stay far from the wrap-around and are modelled as \<^typ>\<open>int\<close>.
  \<^verbatim>\<open>Headings\<close> is a Go map: reading a missing key gives 0 (\<open>mapIndex\<close>).
\<close>

record Result =
  URL :: string
  HTMLVersion :: string
  Title :: string
  Headings :: "string \<rightharpoonup> int"
  InternalLinks :: int
  ExternalLinks :: int
  InaccessibleLinks :: int
  HasLoginForm :: bool
  Error :: string

definition mapIndex :: "(string \<rightharpoonup> int) \<Rightarrow> string \<Rightarrow> int" where
  "mapIndex m k = (case m k of None \<Rightarrow> 0 | Some v \<Rightarrow> v)"

text \<open>The result \<^verbatim>\<open>AnalyzeURL\<close> starts from: the address and an empty headings map,
  every other field at its zero value.\<close>

definition newResult :: "string \<Rightarrow> Result" where
  "newResult targetURL =
     \<lparr>URL = targetURL, HTMLVersion = '''', Title = '''', Headings = Map.empty,
      InternalLinks = 0, ExternalLinks = 0, InaccessibleLinks = 0,
      HasLoginForm = False, Error = ''''\<rparr>"

section \<open>Document traversal\<close>

text \<open>\<^verbatim>\<open>detectHTMLVersion\<close>: the checks in the order of the source.\<close>

definition detectHTMLVersion :: "unicode_tables \<Rightarrow> string \<Rightarrow> string" where
  "detectHTMLVersion X doctype0 =
     (let doctype = ToLower X (TrimSpace X doctype0) in
      if doctype = ''html'' then ''HTML5''
      else if Contains doctype ''xhtml'' then ''XHTML''
      else if Contains doctype ''html 4'' then ''HTML 4.01''
      else ''HTML5'')"

text \<open>
  \<^verbatim>\<open>processLink\<close>: the loop over the attributes. An \<^verbatim>\<open>href\<close> that does not parse is
  skipped (\<^verbatim>\<open>continue\<close>); the first one that parses is classified by its resolved host and
  ends the loop (\<^verbatim>\<open>break\<close>). The scheme is not looked at.
\<close>

fun processLinkAttrs :: "net_url \<Rightarrow> Attribute list \<Rightarrow> Result \<Rightarrow> url_URL \<Rightarrow> Result" where
  "processLinkAttrs U [] result baseURL = result"
| "processLinkAttrs U (attr # rest) result baseURL =
     (if Key attr = ''href'' then
        (case Parse U (Val attr) of
           Inl err \<Rightarrow> processLinkAttrs U rest result baseURL
         | Inr linkURL \<Rightarrow>
             (let resolvedURL = ResolveReference U baseURL linkURL in
              if Host resolvedURL = Host baseURL
              then result\<lparr>InternalLinks := InternalLinks result + 1\<rparr>
              else result\<lparr>ExternalLinks := ExternalLinks result + 1\<rparr>))
      else processLinkAttrs U rest result baseURL)"

definition processLink :: "net_url \<Rightarrow> Node \<Rightarrow> Result \<Rightarrow> url_URL \<Rightarrow> Result" where
  "processLink U n result baseURL = processLinkAttrs U (Attr n) result baseURL"

text \<open>
  \<^verbatim>\<open>checkFormFields\<close> writes through two \<^verbatim>\<open>*bool\<close>; the model passes the pair
  (\<open>hasPassword\<close>, \<open>hasUsername\<close>) along. The attribute loop has no \<^verbatim>\<open>break\<close>: the last
  \<^verbatim>\<open>type\<close> and the last \<^verbatim>\<open>name\<close> attribute are the ones kept.
\<close>

fun inputAttrs :: "unicode_tables \<Rightarrow> Attribute list \<Rightarrow> string \<times> string \<Rightarrow> string \<times> string" where
  "inputAttrs X [] (inputType, inputName) = (inputType, inputName)"
| "inputAttrs X (attr # rest) (inputType, inputName) =
     inputAttrs X rest
       (if Key attr = ''type'' then ToLower X (Val attr) else inputType,
        if Key attr = ''name'' then ToLower X (Val attr) else inputName)"

definition checkInput :: "unicode_tables \<Rightarrow> Node \<Rightarrow> bool \<times> bool \<Rightarrow> bool \<times> bool" where
  "checkInput X n flags =
     (case flags of (hasPassword, hasUsername) \<Rightarrow>
        if Type n = ElementNode \<and> Data n = ''input'' then
          (case inputAttrs X (Attr n) ('''', '''') of (inputType, inputName) \<Rightarrow>
             (if inputType = ''password'' then True else hasPassword,
              if (inputType = ''text'' \<or> inputType = ''email'' \<or> inputType = '''')
                 \<and> (Contains inputName ''user'' \<or> Contains inputName ''email''
                      \<or> Contains inputName ''login'')
              then True else hasUsername))
        else (hasPassword, hasUsername))"

fun checkFormFields :: "unicode_tables \<Rightarrow> Node \<Rightarrow> bool \<times> bool \<Rightarrow> bool \<times> bool"
  and checkFormFieldsChildren :: "unicode_tables \<Rightarrow> Node list \<Rightarrow> bool \<times> bool \<Rightarrow> bool \<times> bool" where
  "checkFormFields X (Node t d as cs) flags =
     checkFormFieldsChildren X cs (checkInput X (Node t d as cs) flags)"
| "checkFormFieldsChildren X [] flags = flags"
| "checkFormFieldsChildren X (c # cs) flags =
     checkFormFieldsChildren X cs (checkFormFields X c flags)"

definition isLoginForm :: "unicode_tables \<Rightarrow> Node \<Rightarrow> bool" where
  "isLoginForm X n =
     (case checkFormFields X n (False, False) of
        (hasPasswordField, hasUsernameField) \<Rightarrow> hasPasswordField \<and> hasUsernameField)"

text \<open>
  \<^verbatim>\<open>traverseNode\<close>: what is done at the node itself (\<open>visitNode\<close>, the \<^verbatim>\<open>switch\<close> on the
  lower-cased tag and the doctype branch), then the loop over the children.
\<close>

definition visitNode :: "unicode_tables \<Rightarrow> net_url \<Rightarrow> Node \<Rightarrow> Result \<Rightarrow> url_URL \<Rightarrow> Result" where
  "visitNode X U n result baseURL =
     (if Type n = ElementNode then
        (let tag = ToLower X (Data n) in
         if tag = ''title'' then
           (case FirstChild n of
              Some c \<Rightarrow>
                if Type c = TextNode then result\<lparr>Title := TrimSpace X (Data c)\<rparr> else result
            | None \<Rightarrow> result)
         else if tag \<in> set [''h1'', ''h2'', ''h3'', ''h4'', ''h5'', ''h6''] then
           result\<lparr>Headings := (Headings result)(tag \<mapsto> mapIndex (Headings result) tag + 1)\<rparr>
         else if tag = ''a'' then processLink U n result baseURL
         else if tag = ''form'' then
           (if isLoginForm X n then result\<lparr>HasLoginForm := True\<rparr> else result)
         else result)
      else if Type n = DoctypeNode then
        result\<lparr>HTMLVersion := detectHTMLVersion X (Data n)\<rparr>
      else result)"

fun traverseNode :: "unicode_tables \<Rightarrow> net_url \<Rightarrow> Node \<Rightarrow> Result \<Rightarrow> url_URL \<Rightarrow> Result"
  and traverseChildren :: "unicode_tables \<Rightarrow> net_url \<Rightarrow> Node list \<Rightarrow> Result \<Rightarrow> url_URL \<Rightarrow> Result" where
  "traverseNode X U (Node t d as cs) result baseURL =
     traverseChildren X U cs (visitNode X U (Node t d as cs) result baseURL) baseURL"
| "traverseChildren X U [] result baseURL = result"
| "traverseChildren X U (c # cs) result baseURL =
     traverseChildren X U cs (traverseNode X U c result baseURL) baseURL"

definition analyzeDocument :: "unicode_tables \<Rightarrow> net_url \<Rightarrow> Node \<Rightarrow> Result \<Rightarrow> url_URL \<Rightarrow> Result" where
  "analyzeDocument X U doc result baseURL = traverseNode X U doc result baseURL"

text \<open>
  \<^verbatim>\<open>extractLinksFromNode\<close>: the same attribute loop as \<^verbatim>\<open>processLink\<close>, on elements
  whose tag is exactly \<^verbatim>\<open>a\<close>, keeping the resolved address when its scheme is
  \<^verbatim>\<open>http\<close> or \<^verbatim>\<open>https\<close>.
\<close>

fun extractLinkAttrs :: "net_url \<Rightarrow> Attribute list \<Rightarrow> url_URL \<Rightarrow> string list \<Rightarrow> string list" where
  "extractLinkAttrs U [] baseURL links = links"
| "extractLinkAttrs U (attr # rest) baseURL links =
     (if Key attr = ''href'' then
        (case Parse U (Val attr) of
           Inl err \<Rightarrow> extractLinkAttrs U rest baseURL links
         | Inr linkURL \<Rightarrow>
             (let resolvedURL = ResolveReference U baseURL linkURL in
              if Scheme resolvedURL = ''http'' \<or> Scheme resolvedURL = ''https''
              then links @ [URLString U resolvedURL]
              else links))
      else extractLinkAttrs U rest baseURL links)"

fun extractLinksFromNode :: "net_url \<Rightarrow> Node \<Rightarrow> url_URL \<Rightarrow> string list \<Rightarrow> string list"
  and extractLinksFromChildren :: "net_url \<Rightarrow> Node list \<Rightarrow> url_URL \<Rightarrow> string list \<Rightarrow> string list" where
  "extractLinksFromNode U (Node t d as cs) baseURL links =
     extractLinksFromChildren U cs baseURL
       (if t = ElementNode \<and> d = ''a'' then extractLinkAttrs U as baseURL links else links)"
| "extractLinksFromChildren U [] baseURL links = links"
| "extractLinksFromChildren U (c # cs) baseURL links =
     extractLinksFromChildren U cs baseURL (extractLinksFromNode U c baseURL links)"

definition extractLinks :: "net_url \<Rightarrow> Node \<Rightarrow> url_URL \<Rightarrow> string list" where
  "extractLinks U doc baseURL = extractLinksFromNode U doc baseURL []"

section \<open>Fetching and probing\<close>

text \<open>
  \<^verbatim>\<open>config.AnalyzerConfig\<close>; the two durations are nanoseconds.
\<close>

record AnalyzerConfig =
  MaxWorkers :: int
  RequestTimeout :: int
  LinkTimeout :: int
  MaxRedirects :: int

text \<open>
  The network is a parameter as well; requests are given by their HTTP method (\<open>verb\<close>)
  and their address. \<open>NewRequest\<close> is \<^verbatim>\<open>http.NewRequestWithContext\<close> (it
  fails on a malformed address), \<open>RoundTrip\<close> one exchange with a server (it fails on a DNS
  failure, a refused connection, a timeout or a cancelled context), \<open>HTMLParse\<close> is
  \<^verbatim>\<open>html.Parse\<close>. A response carries in \<open>Location\<close> the address \<^verbatim>\<open>http.Client\<close> would go to
  next, when the response is a redirect that the client follows.
\<close>

record Response =
  StatusCode :: int
  Location :: "string option"
  Body :: string

record net_http =
  NewRequest :: "string \<Rightarrow> string \<Rightarrow> error option"
  RoundTrip :: "string \<Rightarrow> string \<Rightarrow> error + Response"
  HTMLParse :: "string \<Rightarrow> error + Node"

text \<open>
  The \<^verbatim>\<open>CheckRedirect\<close> closure that \<^verbatim>\<open>New\<close> and \<^verbatim>\<open>checkLinksAccessibility\<close> install;
  \<open>via\<close> is \<^verbatim>\<open>len(via)\<close>, the number of requests made so far.
\<close>

definition CheckRedirect :: "AnalyzerConfig \<Rightarrow> nat \<Rightarrow> error option" where
  "CheckRedirect config via =
     (if int via \<ge> MaxRedirects config then Some TooManyRedirects else None)"

text \<open>
  \<^verbatim>\<open>client.Do\<close>: exchanges are made until a response is not a redirect, an exchange fails,
  or \<^verbatim>\<open>CheckRedirect\<close> refuses to go on. Every redirect followed brings \<open>via\<close> closer to
  the ceiling, so the loop ends.
\<close>

function clientDo ::
  "net_http \<Rightarrow> AnalyzerConfig \<Rightarrow> string \<Rightarrow> string \<Rightarrow> nat \<Rightarrow> error + Response" where
  "clientDo H config verb address via =
     (case RoundTrip H verb address of
        Inl err \<Rightarrow> Inl err
      | Inr resp \<Rightarrow>
          (case Location resp of
             None \<Rightarrow> Inr resp
           | Some next \<Rightarrow>
               (case CheckRedirect config (Suc via) of
                  Some err \<Rightarrow> Inl err
                | None \<Rightarrow> clientDo H config verb next (Suc via))))"
  by pat_completeness auto
termination
  by (relation "measure (\<lambda>(H, config, verb, address, via). nat (MaxRedirects config - int via))")
     (auto simp: CheckRedirect_def split: if_splits)

declare clientDo.simps [simp del]

definition Do :: "net_http \<Rightarrow> AnalyzerConfig \<Rightarrow> string \<Rightarrow> string \<Rightarrow> error + Response" where
  "Do H config verb address = clientDo H config verb address 0"

definition checkSingleLink :: "net_http \<Rightarrow> AnalyzerConfig \<Rightarrow> string \<Rightarrow> bool" where
  "checkSingleLink H config link =
     (case NewRequest H ''HEAD'' link of
        Some err \<Rightarrow> False
      | None \<Rightarrow>
          (case Do H config ''HEAD'' link of
             Inl err \<Rightarrow> False
           | Inr resp \<Rightarrow> StatusCode resp \<ge> 200 \<and> StatusCode resp < 400))"

definition fetchHTML :: "net_http \<Rightarrow> AnalyzerConfig \<Rightarrow> string \<Rightarrow> error + Node" where
  "fetchHTML H config targetURL =
     (case NewRequest H ''GET'' targetURL of
        Some err \<Rightarrow> Inl err
      | None \<Rightarrow>
          (case Do H config ''GET'' targetURL of
             Inl err \<Rightarrow> Inl err
           | Inr resp \<Rightarrow>
               if StatusCode resp \<noteq> 200 then Inl (HTTPStatus (StatusCode resp))
               else (case HTMLParse H (Body resp) of
                       Inl err \<Rightarrow> Inl (ParsingHTML err)
                     | Inr doc \<Rightarrow> Inr doc)))"

section \<open>The worker pool\<close>

text \<open>
  \<^verbatim>\<open>checkLinksAccessibility\<close> starts \<open>maxWorkers\<close> goroutines, a sender and a closer, and
  collects the results itself. The goroutines share nothing but the two channels, so a
  state of the pool is:
  \<^item> \<open>pending\<close>, the links the sender has still to offer, and \<open>jobsClosed\<close>, whether it has
    returned (its deferred \<^verbatim>\<open>close(jobs)\<close>);
  \<^item> \<open>jobs\<close> and \<open>results\<close>, the contents of the two buffered channels, and
    \<open>resultsClosed\<close>;
  \<^item> the workers: how many wait to receive from \<open>jobs\<close>, the links being checked
    (\<open>inFlight\<close>), how many have returned;
  \<^item> the collector's counters \<open>inaccessible\<close> and \<open>processed\<close>;
  \<^item> \<open>probed\<close>, the links handed to \<^verbatim>\<open>checkSingleLink\<close> so far (a log, not in the source).
\<close>

record Pool =
  pending :: "string list"
  jobsClosed :: bool
  jobs :: "string list"
  receiving :: nat
  inFlight :: "string list"
  finished :: nat
  results :: "bool list"
  resultsClosed :: bool
  inaccessible :: int
  processed :: int
  probed :: "string list"

definition maxWorkers :: "AnalyzerConfig \<Rightarrow> string list \<Rightarrow> int" where
  "maxWorkers config links =
     (if MaxWorkers config > int (length links) then int (length links) else MaxWorkers config)"

text \<open>The loop \<^verbatim>\<open>for i := 0; i < maxWorkers; i++\<close> starts \<open>nat maxWorkers\<close> workers:
  none when \<open>maxWorkers\<close> is zero or negative.\<close>

definition startPool :: "AnalyzerConfig \<Rightarrow> string list \<Rightarrow> Pool" where
  "startPool config links =
     \<lparr>pending = links, jobsClosed = False, jobs = [],
      receiving = nat (maxWorkers config links), inFlight = [], finished = 0,
      results = [], resultsClosed = False, inaccessible = 0, processed = 0, probed = []\<rparr>"

text \<open>
  One step of one goroutine; \<open>cap\<close> is the capacity of both channels, \<^verbatim>\<open>len(links)\<close>.
  \<^item> \<open>send\<close>, \<open>cancel\<close>, \<open>sent\<close>: the sender puts the next link on \<open>jobs\<close>, or takes the
    \<^verbatim>\<open>ctx.Done()\<close> branch of its \<^verbatim>\<open>select\<close> and returns, or has offered every link and returns.
    When the context is cancelled is up to the caller, so \<open>cancel\<close> may happen at any
    iteration.
  \<^item> \<open>take\<close>, \<open>report\<close>, \<open>leave\<close>: a worker receives a link and calls
    \<^verbatim>\<open>checkSingleLink\<close>, sends the outcome on \<open>results\<close>, or finds \<open>jobs\<close> closed and drained
    and returns.
  \<^item> \<open>closeResults\<close>: \<^verbatim>\<open>wg.Wait()\<close> is over, every worker has returned.
  \<^item> \<open>collect\<close>: one iteration of \<^verbatim>\<open>for accessible := range results\<close>.
\<close>

inductive poolStep :: "(string \<Rightarrow> bool) \<Rightarrow> nat \<Rightarrow> Pool \<Rightarrow> Pool \<Rightarrow> bool"
  for check :: "string \<Rightarrow> bool" and cap :: nat where
  send:
    "pending s = l # ls \<Longrightarrow> \<not> jobsClosed s \<Longrightarrow> length (jobs s) < cap \<Longrightarrow>
     poolStep check cap s (s\<lparr>pending := ls, jobs := jobs s @ [l]\<rparr>)"
| cancel:
    "pending s \<noteq> [] \<Longrightarrow> \<not> jobsClosed s \<Longrightarrow>
     poolStep check cap s (s\<lparr>pending := [], jobsClosed := True\<rparr>)"
| sent:
    "pending s = [] \<Longrightarrow> \<not> jobsClosed s \<Longrightarrow>
     poolStep check cap s (s\<lparr>jobsClosed := True\<rparr>)"
| take:
    "jobs s = l # ls \<Longrightarrow> 0 < receiving s \<Longrightarrow>
     poolStep check cap s
       (s\<lparr>jobs := ls, receiving := receiving s - 1, inFlight := l # inFlight s,
          probed := probed s @ [l]\<rparr>)"
| leave:
    "jobs s = [] \<Longrightarrow> jobsClosed s \<Longrightarrow> 0 < receiving s \<Longrightarrow>
     poolStep check cap s (s\<lparr>receiving := receiving s - 1, finished := finished s + 1\<rparr>)"
| report:
    "inFlight s = xs @ l # ys \<Longrightarrow> length (results s) < cap \<Longrightarrow>
     poolStep check cap s
       (s\<lparr>inFlight := xs @ ys, receiving := receiving s + 1,
          results := results s @ [check l]\<rparr>)"
| closeResults:
    "receiving s = 0 \<Longrightarrow> inFlight s = [] \<Longrightarrow> \<not> resultsClosed s \<Longrightarrow>
     poolStep check cap s (s\<lparr>resultsClosed := True\<rparr>)"
| collect:
    "results s = b # bs \<Longrightarrow>
     poolStep check cap s
       (s\<lparr>results := bs, processed := processed s + 1,
          inaccessible := (if b then inaccessible s else inaccessible s + 1)\<rparr>)"

text \<open>The collector's loop ends when \<open>results\<close> is closed and drained.\<close>

definition poolDone :: "Pool \<Rightarrow> bool" where
  "poolDone s = (results s = [] \<and> resultsClosed s)"

text \<open>
  \<^verbatim>\<open>checkLinksAccessibility\<close> relates the links to what a run returns: the count, and with it
  the log of the links probed. An empty list returns before anything is started.
\<close>

inductive checkLinksAccessibility ::
  "net_http \<Rightarrow> AnalyzerConfig \<Rightarrow> string list \<Rightarrow> int \<times> string list \<Rightarrow> bool"
  for H :: net_http and config :: AnalyzerConfig and links :: "string list" where
  noLinks:
    "length links = 0 \<Longrightarrow> checkLinksAccessibility H config links (0, [])"
| collected:
    "length links \<noteq> 0 \<Longrightarrow>
     (poolStep (checkSingleLink H config) (length links))\<^sup>*\<^sup>* (startPool config links) s \<Longrightarrow>
     poolDone s \<Longrightarrow>
     checkLinksAccessibility H config links (inaccessible s, probed s)"

section \<open>The analysis\<close>

text \<open>The block of \<^verbatim>\<open>AnalyzeURL\<close> that validates the address and prepends \<^verbatim>\<open>http://\<close>
  when it has no scheme: the address to fetch and its parsed form, or the error returned.\<close>

definition validateURL :: "net_url \<Rightarrow> string \<Rightarrow> error + (string \<times> url_URL)" where
  "validateURL U targetURL =
     (case Parse U targetURL of
        Inl err \<Rightarrow> Inl (InvalidURL err)
      | Inr parsedURL \<Rightarrow>
          if Scheme parsedURL = '''' then
            (case Parse U (''http://'' @ targetURL) of
               Inl err \<Rightarrow> Inl (InvalidURL err)
             | Inr parsedURL' \<Rightarrow> Inr (''http://'' @ targetURL, parsedURL'))
          else Inr (targetURL, parsedURL))"

text \<open>\<^verbatim>\<open>AnalyzeURL\<close>, one rule for each way it returns: \<open>Inl\<close> is \<^verbatim>\<open>(nil, err)\<close>, \<open>Inr\<close> is
  \<^verbatim>\<open>(result, nil)\<close>.\<close>

inductive AnalyzeURL ::
  "unicode_tables \<Rightarrow> net_url \<Rightarrow> net_http \<Rightarrow> AnalyzerConfig \<Rightarrow> string \<Rightarrow> error + Result \<Rightarrow> bool"
  for X :: unicode_tables and U :: net_url and H :: net_http and config :: AnalyzerConfig
    and targetURL :: string where
  invalid:
    "validateURL U targetURL = Inl err \<Longrightarrow> AnalyzeURL X U H config targetURL (Inl err)"
| fetchFailed:
    "validateURL U targetURL = Inr (address, parsedURL) \<Longrightarrow>
     fetchHTML H config address = Inl err \<Longrightarrow>
     AnalyzeURL X U H config targetURL (Inl (FetchFailed err))"
| nothingToCheck:
    "validateURL U targetURL = Inr (address, parsedURL) \<Longrightarrow>
     fetchHTML H config address = Inr doc \<Longrightarrow>
     result = analyzeDocument X U doc ((newResult targetURL)\<lparr>URL := address\<rparr>) parsedURL \<Longrightarrow>
     \<not> length (extractLinks U doc parsedURL) > 0 \<Longrightarrow>
     AnalyzeURL X U H config targetURL (Inr result)"
| checked:
    "validateURL U targetURL = Inr (address, parsedURL) \<Longrightarrow>
     fetchHTML H config address = Inr doc \<Longrightarrow>
     result = analyzeDocument X U doc ((newResult targetURL)\<lparr>URL := address\<rparr>) parsedURL \<Longrightarrow>
     length (extractLinks U doc parsedURL) > 0 \<Longrightarrow>
     checkLinksAccessibility H config (extractLinks U doc parsedURL) (n, ps) \<Longrightarrow>
     AnalyzeURL X U H config targetURL (Inr (result\<lparr>InaccessibleLinks := n\<rparr>))"


section \<open>Notions used to state the properties\<close>

text \<open>The nodes of a tree in document order (pre-order), the root first; \<open>nodesOf\<close> of the
  children of a node are its descendants.\<close>

fun nodes :: "Node \<Rightarrow> Node list"
  and nodesOf :: "Node list \<Rightarrow> Node list" where
  "nodes (Node t d as cs) = Node t d as cs # nodesOf cs"
| "nodesOf [] = []"
| "nodesOf (c # cs) = nodes c @ nodesOf cs"

definition visit :: "unicode_tables \<Rightarrow> net_url \<Rightarrow> url_URL \<Rightarrow> Node \<Rightarrow> Result \<Rightarrow> Result" where
  "visit X U baseURL m r = visitNode X U m r baseURL"

definition linkOf :: "net_url \<Rightarrow> url_URL \<Rightarrow> Node \<Rightarrow> string list \<Rightarrow> string list" where
  "linkOf U baseURL n links =
     (if Type n = ElementNode \<and> Data n = ''a'' then extractLinkAttrs U (Attr n) baseURL links
      else links)"

text \<open>
  The doctype nodes of a document, in document order. \<^verbatim>\<open>html.Parse\<close> keeps in the data of
  a doctype node the name of the declaration only; a public or system identifier of the
  declaration becomes an attribute \<^verbatim>\<open>public\<close> or \<^verbatim>\<open>system\<close> of the node.
\<close>

definition doctypeNodes :: "Node \<Rightarrow> Node list" where
  "doctypeNodes doc = filter (\<lambda>n. Type n = DoctypeNode) (nodes doc)"

definition hasIdentifiers :: "Node \<Rightarrow> bool" where
  "hasIdentifiers n = (\<exists>a\<in>set (Attr n). Key a = ''public'' \<or> Key a = ''system'')"



definition headingLevels :: "string list" where
  "headingLevels = [''h1'', ''h2'', ''h3'', ''h4'', ''h5'', ''h6'']"

definition isHeading :: "unicode_tables \<Rightarrow> string \<Rightarrow> Node \<Rightarrow> bool" where
  "isHeading X level n = (Type n = ElementNode \<and> ToLower X (Data n) = level)"

definition headingCount :: "unicode_tables \<Rightarrow> string \<Rightarrow> Node \<Rightarrow> nat" where
  "headingCount X level doc = length (filter (isHeading X level) (nodes doc))"

text \<open>
  Anchors. \<open>parsedHref\<close> is the first \<^verbatim>\<open>href\<close> attribute of a node that parses, parsed;
  \<open>resolvedHref\<close> is that reference resolved against the base address. An anchor is
  counted when it has one; it is internal or external by the resolved host.
  \<open>probeTarget\<close> is the address an element \<^verbatim>\<open>a\<close> contributes to the probe set.
\<close>

definition parsedHref :: "net_url \<Rightarrow> Node \<Rightarrow> url_URL option" where
  "parsedHref U n =
     (case find (\<lambda>a. Key a = ''href'' \<and> \<not> isl (Parse U (Val a))) (Attr n) of
        None \<Rightarrow> None
      | Some a \<Rightarrow> Some (projr (Parse U (Val a))))"

definition resolvedHref :: "net_url \<Rightarrow> url_URL \<Rightarrow> Node \<Rightarrow> url_URL option" where
  "resolvedHref U baseURL n = map_option (ResolveReference U baseURL) (parsedHref U n)"

definition isAnchor :: "unicode_tables \<Rightarrow> Node \<Rightarrow> bool" where
  "isAnchor X n = (Type n = ElementNode \<and> ToLower X (Data n) = ''a'')"

definition countedAnchor :: "unicode_tables \<Rightarrow> net_url \<Rightarrow> url_URL \<Rightarrow> Node \<Rightarrow> bool" where
  "countedAnchor X U baseURL n = (isAnchor X n \<and> resolvedHref U baseURL n \<noteq> None)"

definition internalAnchor :: "unicode_tables \<Rightarrow> net_url \<Rightarrow> url_URL \<Rightarrow> Node \<Rightarrow> bool" where
  "internalAnchor X U baseURL n =
     (isAnchor X n \<and>
      (case resolvedHref U baseURL n of None \<Rightarrow> False | Some u \<Rightarrow> Host u = Host baseURL))"

definition externalAnchor :: "unicode_tables \<Rightarrow> net_url \<Rightarrow> url_URL \<Rightarrow> Node \<Rightarrow> bool" where
  "externalAnchor X U baseURL n =
     (isAnchor X n \<and>
      (case resolvedHref U baseURL n of None \<Rightarrow> False | Some u \<Rightarrow> Host u \<noteq> Host baseURL))"

definition probeTarget :: "net_url \<Rightarrow> url_URL \<Rightarrow> Node \<Rightarrow> string option" where
  "probeTarget U baseURL n =
     (if Type n = ElementNode \<and> Data n = ''a'' then
        (case resolvedHref U baseURL n of
           None \<Rightarrow> None
         | Some u \<Rightarrow>
             if Scheme u = ''http'' \<or> Scheme u = ''https'' then Some (URLString U u) else None)
      else None)"

text \<open>The anchors the specification says are counted: the first \<^verbatim>\<open>href\<close> attribute parses
  and resolves to an HTTP or HTTPS address.\<close>

definition specCountedAnchor :: "unicode_tables \<Rightarrow> net_url \<Rightarrow> url_URL \<Rightarrow> Node \<Rightarrow> bool" where
  "specCountedAnchor X U baseURL n =
     (isAnchor X n \<and>
      (case find (\<lambda>a. Key a = ''href'') (Attr n) of
         None \<Rightarrow> False
       | Some a \<Rightarrow>
           (case Parse U (Val a) of
              Inl err \<Rightarrow> False
            | Inr linkURL \<Rightarrow>
                Scheme (ResolveReference U baseURL linkURL) = ''http''
                \<or> Scheme (ResolveReference U baseURL linkURL) = ''https'')))"

text \<open>
  Form fields. \<open>lastAttr k\<close> is the lower-cased value of the last attribute named \<open>k\<close>,
  empty when there is none. A password input has type \<^verbatim>\<open>password\<close>; a username input
  has a name containing \<^verbatim>\<open>user\<close>, \<^verbatim>\<open>email\<close> or \<^verbatim>\<open>login\<close> and a type that is empty,
  \<^verbatim>\<open>text\<close> or \<^verbatim>\<open>email\<close>.
\<close>

definition lastAttr :: "unicode_tables \<Rightarrow> string \<Rightarrow> Attribute list \<Rightarrow> string" where
  "lastAttr X k as =
     (case find (\<lambda>a. Key a = k) (rev as) of None \<Rightarrow> '''' | Some a \<Rightarrow> ToLower X (Val a))"

definition isInput :: "Node \<Rightarrow> bool" where
  "isInput n = (Type n = ElementNode \<and> Data n = ''input'')"

definition namedLikeUser :: "unicode_tables \<Rightarrow> Node \<Rightarrow> bool" where
  "namedLikeUser X n =
     (Contains (lastAttr X ''name'' (Attr n)) ''user''
      \<or> Contains (lastAttr X ''name'' (Attr n)) ''email''
      \<or> Contains (lastAttr X ''name'' (Attr n)) ''login'')"

definition passwordInput :: "unicode_tables \<Rightarrow> Node \<Rightarrow> bool" where
  "passwordInput X n = (isInput n \<and> lastAttr X ''type'' (Attr n) = ''password'')"

definition usernameInput :: "unicode_tables \<Rightarrow> Node \<Rightarrow> bool" where
  "usernameInput X n =
     (isInput n \<and> lastAttr X ''type'' (Attr n) \<in> set ['''', ''text'', ''email''] \<and> namedLikeUser X n)"

text \<open>The username input as the specification words it: the type attribute is absent,
  \<^verbatim>\<open>text\<close> or \<^verbatim>\<open>email\<close>.\<close>

definition specUsernameInput :: "unicode_tables \<Rightarrow> Node \<Rightarrow> bool" where
  "specUsernameInput X n =
     (isInput n
      \<and> ((\<forall>a\<in>set (Attr n). Key a \<noteq> ''type'')
          \<or> lastAttr X ''type'' (Attr n) \<in> set [''text'', ''email''])
      \<and> namedLikeUser X n)"

definition isForm :: "unicode_tables \<Rightarrow> Node \<Rightarrow> bool" where
  "isForm X n = (Type n = ElementNode \<and> ToLower X (Data n) = ''form'')"

text \<open>The fetch and parse phase fails: the address is invalid (it does not parse, or no
  request can be made for it), the exchange fails, the status is not 200, or the markup
  does not parse.\<close>

definition fetchPhaseFails :: "net_url \<Rightarrow> net_http \<Rightarrow> AnalyzerConfig \<Rightarrow> string \<Rightarrow> bool" where
  "fetchPhaseFails U H config targetURL =
     (case validateURL U targetURL of
        Inl err \<Rightarrow> True
      | Inr (address, parsedURL) \<Rightarrow>
          NewRequest H ''GET'' address \<noteq> None
          \<or> (case Do H config ''GET'' address of
                Inl err \<Rightarrow> True
              | Inr resp \<Rightarrow> StatusCode resp \<noteq> 200 \<or> isl (HTMLParse H (Body resp))))"

text \<open>The number of links of a list that a check finds inaccessible.\<close>

definition failures :: "(string \<Rightarrow> bool) \<Rightarrow> string list \<Rightarrow> nat" where
  "failures check ls = length (filter (\<lambda>l. \<not> check l) ls)"

text \<open>
  What holds of every state of a pool started on \<open>links\<close> with \<open>w\<close> workers: the
  collector's counters account for the outcomes delivered, the links handed out are a
  prefix of \<open>links\<close>, no worker is gained or lost, and \<open>results\<close> is closed only after the
  last worker has returned.
\<close>

definition poolInv :: "(string \<Rightarrow> bool) \<Rightarrow> string list \<Rightarrow> nat \<Rightarrow> Pool \<Rightarrow> bool" where
  "poolInv check links w s \<longleftrightarrow>
     0 \<le> inaccessible s \<and> inaccessible s \<le> processed s
     \<and> inaccessible s + int (length (filter Not (results s))) + int (failures check (inFlight s))
         = int (failures check (probed s))
     \<and> processed s + int (length (results s)) + int (length (inFlight s)) = int (length (probed s))
     \<and> prefix (probed s @ jobs s @ pending s) links
     \<and> receiving s + length (inFlight s) + finished s = w
     \<and> (resultsClosed s \<longrightarrow> receiving s = 0 \<and> inFlight s = [])"

text \<open>A quantity that every step of the pool makes smaller.\<close>

definition poolMeasure :: "Pool \<Rightarrow> nat" where
  "poolMeasure s =
     6 * length (pending s) + 5 * length (jobs s) + 3 * length (inFlight s)
     + length (results s) + receiving s
     + (if jobsClosed s then 0 else 1) + (if resultsClosed s then 0 else 1)"

text \<open>The links \<^verbatim>\<open>AnalyzeURL\<close> extracts for probing: those of the page fetched from the
  validated address, none when there is no page.\<close>

definition probeSet :: "net_url \<Rightarrow> net_http \<Rightarrow> AnalyzerConfig \<Rightarrow> string \<Rightarrow> string list" where
  "probeSet U H config targetURL =
     (case validateURL U targetURL of
        Inl err \<Rightarrow> []
      | Inr (address, parsedURL) \<Rightarrow>
          (case fetchHTML H config address of
             Inl err \<Rightarrow> []
           | Inr doc \<Rightarrow> extractLinks U doc parsedURL))"

text \<open>The address the client is at after following \<open>n\<close> redirects from an address, if
  the exchanges on the way there all answer with a redirect.\<close>

fun addressAfter :: "net_http \<Rightarrow> string \<Rightarrow> nat \<Rightarrow> string \<Rightarrow> string option" where
  "addressAfter H verb 0 address = Some address"
| "addressAfter H verb (Suc n) address =
     (case RoundTrip H verb address of
        Inl err \<Rightarrow> None
      | Inr resp \<Rightarrow>
          (case Location resp of
             None \<Rightarrow> None
           | Some next \<Rightarrow> addressAfter H verb n next))"

section \<open>Example inputs\<close>

text \<open>
  A stand-in for \<^verbatim>\<open>net/url\<close> on the addresses of the examples: on each of them it gives
  what \<^verbatim>\<open>url.Parse\<close>, \<^verbatim>\<open>ResolveReference\<close> and \<^verbatim>\<open>String\<close> give (a reference with a scheme
  resolves to itself, a path reference takes scheme and host of the base). It is used on
  no other address.
\<close>

definition exampleParse :: "string \<Rightarrow> error + url_URL" where
  "exampleParse s =
     (if s = ''https://example.com'' then
        Inr \<lparr>Scheme = ''https'', Opaque = '''', Host = ''example.com'', Path = '''',
             RawQuery = '''', Fragment = ''''\<rparr>
      else if s = ''/x'' then
        Inr \<lparr>Scheme = '''', Opaque = '''', Host = '''', Path = ''/x'',
             RawQuery = '''', Fragment = ''''\<rparr>
      else if s = ''https://ext.example'' then
        Inr \<lparr>Scheme = ''https'', Opaque = '''', Host = ''ext.example'', Path = '''',
             RawQuery = '''', Fragment = ''''\<rparr>
      else if s = ''mailto:test@example.com'' then
        Inr \<lparr>Scheme = ''mailto'', Opaque = ''test@example.com'', Host = '''', Path = '''',
             RawQuery = '''', Fragment = ''''\<rparr>
      else Inl (LibError ''missing protocol scheme''))"

definition exampleResolve :: "url_URL \<Rightarrow> url_URL \<Rightarrow> url_URL" where
  "exampleResolve base ref =
     (if Scheme ref \<noteq> '''' then ref else ref\<lparr>Scheme := Scheme base, Host := Host base\<rparr>)"

definition exampleString :: "url_URL \<Rightarrow> string" where
  "exampleString u =
     (if Opaque u \<noteq> '''' then Scheme u @ '':'' @ Opaque u
      else Scheme u @ ''://'' @ Host u @ Path u)"

definition exampleURLs :: net_url where
  "exampleURLs =
     \<lparr>Parse = exampleParse, ResolveReference = exampleResolve, URLString = exampleString\<rparr>"

definition exampleBase :: url_URL where
  "exampleBase =
     \<lparr>Scheme = ''https'', Opaque = '''', Host = ''example.com'', Path = '''',
      RawQuery = '''', Fragment = ''''\<rparr>"

text \<open>The document of the specification's scenario: doctype \<^verbatim>\<open>html\<close>, title \<^verbatim>\<open>T\<close>, one
  \<^verbatim>\<open>h1\<close>, two \<^verbatim>\<open>h2\<close>, a link to \<^verbatim>\<open>/x\<close> and a link to \<^verbatim>\<open>https://ext.example\<close>.\<close>

definition scenarioDoc :: Node where
  "scenarioDoc =
     Node DocumentNode '''' []
       [Node DoctypeNode ''html'' [] [],
        Node ElementNode ''html'' []
          [Node ElementNode ''head'' []
             [Node ElementNode ''title'' [] [Node TextNode ''T'' [] []]],
           Node ElementNode ''body'' []
             [Node ElementNode ''h1'' [] [Node TextNode ''A'' [] []],
              Node ElementNode ''h2'' [] [Node TextNode ''B'' [] []],
              Node ElementNode ''h2'' [] [Node TextNode ''C'' [] []],
              Node ElementNode ''a'' [Attribute '''' ''href'' ''/x''] [Node TextNode ''i'' [] []],
              Node ElementNode ''a'' [Attribute '''' ''href'' ''https://ext.example'']
                [Node TextNode ''e'' [] []]]]]"

text \<open>A page without doctype, title or heading, with a link to \<^verbatim>\<open>/x\<close> and a mail link.\<close>

definition mailPage :: Node where
  "mailPage =
     Node DocumentNode '''' []
       [Node ElementNode ''html'' []
          [Node ElementNode ''head'' [] [],
           Node ElementNode ''body'' []
             [Node ElementNode ''a'' [Attribute '''' ''href'' ''/x''] [Node TextNode ''x'' [] []],
              Node ElementNode ''a'' [Attribute '''' ''href'' ''mailto:test@example.com'']
                [Node TextNode ''m'' [] []]]]]"

text \<open>Two forms: an email field with a password field, and a password field with a
  field named \<^verbatim>\<open>username\<close> whose type attribute is present and empty.\<close>

definition loginForm :: Node where
  "loginForm =
     Node ElementNode ''form'' []
       [Node ElementNode ''input''
          [Attribute '''' ''type'' ''email'', Attribute '''' ''name'' ''email''] [],
        Node ElementNode ''input''
          [Attribute '''' ''type'' ''password'', Attribute '''' ''name'' ''password''] []]"

definition emptyTypeForm :: Node where
  "emptyTypeForm =
     Node ElementNode ''form'' []
       [Node ElementNode ''input''
          [Attribute '''' ''type'' '''', Attribute '''' ''name'' ''username''] [],
        Node ElementNode ''input''
          [Attribute '''' ''type'' ''password'', Attribute '''' ''name'' ''password''] []]"

text \<open>A network in which \<^verbatim>\<open>https://example.com\<close> serves \<open>mailPage\<close>, \<^verbatim>\<open>/x\<close> is not found,
  \<^verbatim>\<open>/loop\<close> redirects to itself, \<^verbatim>\<open>/r1\<close> redirects to \<^verbatim>\<open>/r2\<close> and \<^verbatim>\<open>/r2\<close> to the
  page, and no other host answers; the configuration of the repository's tests.\<close>

definition exampleHTTP :: net_http where
  "exampleHTTP =
     \<lparr>NewRequest = (\<lambda>verb address.
        if address = ''://no-scheme'' then Some (LibError ''missing protocol scheme'') else None),
      RoundTrip = (\<lambda>verb address.
        if address = ''https://example.com'' then
          Inr \<lparr>StatusCode = 200, Location = None, Body = ''page''\<rparr>
        else if address = ''https://example.com/x'' then
          Inr \<lparr>StatusCode = 404, Location = None, Body = ''''\<rparr>
        else if address = ''https://example.com/loop'' then
          Inr \<lparr>StatusCode = 302, Location = Some ''https://example.com/loop'', Body = ''''\<rparr>
        else if address = ''https://example.com/r1'' then
          Inr \<lparr>StatusCode = 302, Location = Some ''https://example.com/r2'', Body = ''''\<rparr>
        else if address = ''https://example.com/r2'' then
          Inr \<lparr>StatusCode = 301, Location = Some ''https://example.com'', Body = ''''\<rparr>
        else Inl (LibError ''no such host'')),
      HTMLParse = (\<lambda>body.
        if body = ''page'' then Inr mailPage else Inr (Node DocumentNode '''' [] []))\<rparr>"

definition exampleConfig :: AnalyzerConfig where
  "exampleConfig =
     \<lparr>MaxWorkers = 3, RequestTimeout = 5000000000, LinkTimeout = 2000000000, MaxRedirects = 5\<rparr>"


text \<open>
  A stand-in for the tables of package \<^verbatim>\<open>unicode\<close> on the strings of the examples: U+0130
  (bytes C4 B0) lower-cases to \<^verbatim>\<open>i\<close>, and U+00A0 (bytes C2 A0) is white space. It is used on
  no other string with a byte beyond ASCII.
\<close>

definition exampleUnicode :: unicode_tables where
  "exampleUnicode =
     \<lparr>MapToLower = (\<lambda>s.
        if s = ''LOG'' @ [CHR 0xC4, CHR 0xB0] @ ''N'' then ''login''
        else if s = ''t'' @ [CHR 0xC4, CHR 0xB0] @ ''tle'' then ''title''
        else s),
      TrimFuncIsSpace = (\<lambda>s.
        if s = [CHR 0xC2, CHR 0xA0] @ ''Hello'' @ [CHR 0xC2, CHR 0xA0] then ''Hello'' else s),
      TrimRightFuncIsSpace = (\<lambda>s.
        if s = ''Hello'' @ [CHR 0xC2, CHR 0xA0] then ''Hello'' else s)\<rparr>"




text \<open>A form whose type values are in capitals and whose user field is named with
  U+0130.\<close>

definition unicodeLoginForm :: Node where
  "unicodeLoginForm =
     Node ElementNode ''form'' []
       [Node ElementNode ''div'' []
          [Node ElementNode ''input''
             [Attribute '''' ''type'' ''Text'',
              Attribute '''' ''name'' (''LOG'' @ [CHR 0xC4, CHR 0xB0] @ ''N'')] []],
        Node ElementNode ''input''
          [Attribute '''' ''type'' ''PASSWORD'', Attribute '''' ''name'' ''pw''] []]"

text \<open>
  Pages as \<^verbatim>\<open>html.Parse\<close> delivers them: one declared XHTML 1.0 Strict, with its
  identifiers as attributes of the doctype node; one whose declaration is a bare name that
  is not recognized.
\<close>

definition xhtmlPage :: Node where
  "xhtmlPage =
     Node DocumentNode '''' []
       [Node DoctypeNode ''html''
          [Attribute '''' ''public'' ''-//W3C//DTD XHTML 1.0 Strict//EN'',
           Attribute '''' ''system'' ''http://www.w3.org/TR/xhtml1/DTD/xhtml1-strict.dtd''] [],
        Node ElementNode ''html'' []
          [Node ElementNode ''head'' [] [], Node ElementNode ''body'' [] []]]"

definition unknownDoctypePage :: Node where
  "unknownDoctypePage =
     Node DocumentNode '''' []
       [Node DoctypeNode ''svg'' [] [],
        Node ElementNode ''html'' []
          [Node ElementNode ''head'' [] [], Node ElementNode ''body'' [] []]]"

section \<open>Strings: facts\<close>

lemma Contains_iff: "Contains s sub \<longleftrightarrow> (\<exists>p q. s = p @ sub @ q)"
proof (induction s)
  case Nil
  then show ?case by auto
next
  case (Cons c s)
  show ?case
  proof
    assume "Contains (c # s) sub"
    then consider "take (length sub) (c # s) = sub" | "Contains s sub" by auto
    then show "\<exists>p q. c # s = p @ sub @ q"
    proof cases
      case 1
      then have "c # s = [] @ sub @ drop (length sub) (c # s)"
        by (metis append_Nil append_take_drop_id)
      then show ?thesis by blast
    next
      case 2
      then obtain p q where "s = p @ sub @ q" using Cons.IH by blast
      then have "c # s = (c # p) @ sub @ q" by simp
      then show ?thesis by blast
    qed
  next
    assume "\<exists>p q. c # s = p @ sub @ q"
    then obtain p q where pq: "c # s = p @ sub @ q" by blast
    show "Contains (c # s) sub"
    proof (cases p)
      case Nil
      then have "take (length sub) (c # s) = sub" using pq by simp
      then show ?thesis by simp
    next
      case (Cons a p')
      then have "s = p' @ sub @ q" using pq by simp
      then show ?thesis using Cons.IH by auto
    qed
  qed
qed

lemma ToLower_literals [simp]:
  "ToLower X ''a'' = ''a''" "ToLower X ''input'' = ''input''"
  by (simp_all add: ToLower_def toLowerByte_def isASCII_def)

section \<open>The traversals as folds over the nodes in document order\<close>

lemma traverse_fold:
  "traverseNode X U n result baseURL = fold (visit X U baseURL) (nodes n) result"
  "traverseChildren X U ns result baseURL = fold (visit X U baseURL) (nodesOf ns) result"
  by (induction X U n result baseURL and X U ns result baseURL
      rule: traverseNode_traverseChildren.induct) (simp_all add: visit_def)

lemma analyzeDocument_fold:
  "analyzeDocument X U doc result baseURL = fold (visit X U baseURL) (nodes doc) result"
  unfolding analyzeDocument_def by (rule traverse_fold)

lemma checkFormFields_fold:
  "checkFormFields X n flags = fold (checkInput X) (nodes n) flags"
  "checkFormFieldsChildren X ns flags = fold (checkInput X) (nodesOf ns) flags"
  by (induction X n flags and X ns flags rule: checkFormFields_checkFormFieldsChildren.induct)
     simp_all

lemma extractLinks_fold:
  "extractLinksFromNode U n baseURL links = fold (linkOf U baseURL) (nodes n) links"
  "extractLinksFromChildren U ns baseURL links = fold (linkOf U baseURL) (nodesOf ns) links"
  by (induction U n baseURL links and U ns baseURL links
      rule: extractLinksFromNode_extractLinksFromChildren.induct) (simp_all add: linkOf_def)

lemma nodes_Children: "nodes f = f # nodesOf (Children f)"
  by (cases f) simp

lemma map_filter_snoc:
  "List.map_filter f (xs @ [x]) =
     (case f x of None \<Rightarrow> List.map_filter f xs | Some y \<Rightarrow> List.map_filter f xs @ [y])"
  by (simp add: List.map_filter_def split: option.splits)

lemma length_map_filter_le:
  "(\<And>x y. f x = Some y \<Longrightarrow> P x) \<Longrightarrow> length (List.map_filter f xs) \<le> length (filter P xs)"
proof (induction xs)
  case Nil
  then show ?case by (simp add: List.map_filter_simps)
next
  case (Cons x xs)
  then show ?case by (auto simp: List.map_filter_simps split: option.splits)
qed

lemma find_append:
  "find P (xs @ ys) = (case find P xs of None \<Rightarrow> find P ys | Some x \<Rightarrow> Some x)"
  by (induction xs) simp_all

section \<open>What one visit does to each field\<close>

lemma processLinkAttrs_frame:
  "HTMLVersion (processLinkAttrs U as r b) = HTMLVersion r"
  "Title (processLinkAttrs U as r b) = Title r"
  "Headings (processLinkAttrs U as r b) = Headings r"
  "HasLoginForm (processLinkAttrs U as r b) = HasLoginForm r"
  "URL (processLinkAttrs U as r b) = URL r"
  "InaccessibleLinks (processLinkAttrs U as r b) = InaccessibleLinks r"
  "Error (processLinkAttrs U as r b) = Error r"
  by (induction as) (simp_all add: Let_def split: sum.splits)

lemma visitNode_HTMLVersion:
  "HTMLVersion (visitNode X U n r b) =
     (if Type n = DoctypeNode then detectHTMLVersion X (Data n) else HTMLVersion r)"
  by (simp add: visitNode_def Let_def processLink_def processLinkAttrs_frame split: option.splits)


lemma visitNode_Headings:
  "Headings (visitNode X U n r b) =
     (if Type n = ElementNode \<and> ToLower X (Data n) \<in> set headingLevels
      then (Headings r)(ToLower X (Data n) \<mapsto> mapIndex (Headings r) (ToLower X (Data n)) + 1)
      else Headings r)"
  by (simp add: visitNode_def headingLevels_def Let_def processLink_def
      processLinkAttrs_frame split: option.splits)

lemma visitNode_Error:
  "Error (visitNode X U n r b) = Error r"
  by (simp add: visitNode_def Let_def processLink_def processLinkAttrs_frame split: option.splits)

lemma visitNode_InaccessibleLinks:
  "InaccessibleLinks (visitNode X U n r b) = InaccessibleLinks r"
  by (simp add: visitNode_def Let_def processLink_def processLinkAttrs_frame split: option.splits)

lemma visit_Headings_level:
  "level \<in> set headingLevels \<Longrightarrow>
     Headings (visit X U b n r) level =
       (if isHeading X level n then Some (mapIndex (Headings r) level + 1) else Headings r level)"
  by (auto simp: visit_def visitNode_Headings isHeading_def)

lemma processLinkAttrs_resolved:
  "processLinkAttrs U as r b =
     (case find (\<lambda>a. Key a = ''href'' \<and> \<not> isl (Parse U (Val a))) as of
        None \<Rightarrow> r
      | Some a \<Rightarrow>
          if Host (ResolveReference U b (projr (Parse U (Val a)))) = Host b
          then r\<lparr>InternalLinks := InternalLinks r + 1\<rparr>
          else r\<lparr>ExternalLinks := ExternalLinks r + 1\<rparr>)"
  by (induction as) (auto simp: Let_def split: sum.splits)

lemma processLink_resolved:
  "processLink U n r b =
     (case resolvedHref U b n of
        None \<Rightarrow> r
      | Some u \<Rightarrow>
          if Host u = Host b then r\<lparr>InternalLinks := InternalLinks r + 1\<rparr>
          else r\<lparr>ExternalLinks := ExternalLinks r + 1\<rparr>)"
  by (simp add: processLink_def processLinkAttrs_resolved resolvedHref_def parsedHref_def
      split: option.splits)

lemma extractLinkAttrs_resolved:
  "extractLinkAttrs U as b links =
     (case find (\<lambda>a. Key a = ''href'' \<and> \<not> isl (Parse U (Val a))) as of
        None \<Rightarrow> links
      | Some a \<Rightarrow>
          if Scheme (ResolveReference U b (projr (Parse U (Val a)))) = ''http''
             \<or> Scheme (ResolveReference U b (projr (Parse U (Val a)))) = ''https''
          then links @ [URLString U (ResolveReference U b (projr (Parse U (Val a))))]
          else links)"
  by (induction as) (auto simp: Let_def split: sum.splits)

lemma linkOf_probeTarget:
  "linkOf U b n links = (case probeTarget U b n of None \<Rightarrow> links | Some l \<Rightarrow> links @ [l])"
  by (simp add: linkOf_def probeTarget_def extractLinkAttrs_resolved resolvedHref_def
      parsedHref_def split: option.splits)

lemma visitNode_links:
  "InternalLinks (visitNode X U n r b) =
     InternalLinks r + (if internalAnchor X U b n then 1 else 0)"
  "ExternalLinks (visitNode X U n r b) =
     ExternalLinks r + (if externalAnchor X U b n then 1 else 0)"
  by (auto simp: visitNode_def Let_def processLink_resolved internalAnchor_def externalAnchor_def
      isAnchor_def split: option.splits)

lemma inputAttrs_last:
  "inputAttrs X as (t0, n0) =
     (case find (\<lambda>a. Key a = ''type'') (rev as) of None \<Rightarrow> t0 | Some a \<Rightarrow> ToLower X (Val a),
      case find (\<lambda>a. Key a = ''name'') (rev as) of None \<Rightarrow> n0 | Some a \<Rightarrow> ToLower X (Val a))"
  by (induction as arbitrary: t0 n0) (auto simp: find_append split: option.splits)

lemma inputAttrs_lastAttr:
  "inputAttrs X as ('''', '''') = (lastAttr X ''type'' as, lastAttr X ''name'' as)"
  by (simp add: inputAttrs_last lastAttr_def)

lemma checkInput_flags:
  "checkInput X n (p, u) = (p \<or> passwordInput X n, u \<or> usernameInput X n)"
  by (auto simp: checkInput_def inputAttrs_lastAttr passwordInput_def usernameInput_def
      namedLikeUser_def isInput_def)

lemma visitNode_HasLoginForm:
  "HasLoginForm (visitNode X U n r b) = (HasLoginForm r \<or> (isForm X n \<and> isLoginForm X n))"
  by (auto simp: visitNode_def Let_def isForm_def processLink_def processLinkAttrs_frame
      split: option.splits)

section \<open>What a traversal does to each field\<close>

lemma fold_visit_HTMLVersion:
  "HTMLVersion (fold (visit X U b) ns r) =
     (if filter (\<lambda>n. Type n = DoctypeNode) ns = [] then HTMLVersion r
      else detectHTMLVersion X (Data (last (filter (\<lambda>n. Type n = DoctypeNode) ns))))"
  by (induction ns rule: rev_induct) (simp_all add: visit_def visitNode_HTMLVersion)


lemma fold_visit_Error:
  "Error (fold (visit X U b) ns r) = Error r"
  by (induction ns rule: rev_induct) (simp_all add: visit_def visitNode_Error)

lemma fold_visit_InaccessibleLinks:
  "InaccessibleLinks (fold (visit X U b) ns r) = InaccessibleLinks r"
  by (induction ns rule: rev_induct) (simp_all add: visit_def visitNode_InaccessibleLinks)

lemma fold_visit_Headings:
  assumes "level \<in> set headingLevels"
  shows "Headings (fold (visit X U b) ns r) level =
     (if filter (isHeading X level) ns = [] then Headings r level
      else Some (mapIndex (Headings r) level + int (length (filter (isHeading X level) ns))))"
proof (induction ns rule: rev_induct)
  case Nil
  then show ?case by simp
next
  case (snoc n ns)
  show ?case
  proof (cases "isHeading X level n")
    case True
    then show ?thesis
      using snoc.IH by (simp add: visit_Headings_level [OF assms] mapIndex_def)
  next
    case False
    then show ?thesis
      using snoc.IH by (simp add: visit_Headings_level [OF assms])
  qed
qed

lemma fold_visit_links:
  "InternalLinks (fold (visit X U b) ns r) =
     InternalLinks r + int (length (filter (internalAnchor X U b) ns))"
  "ExternalLinks (fold (visit X U b) ns r) =
     ExternalLinks r + int (length (filter (externalAnchor X U b) ns))"
  by (induction ns rule: rev_induct) (simp_all add: visit_def visitNode_links)

lemma fold_visit_HasLoginForm:
  "HasLoginForm (fold (visit X U b) ns r) =
     (HasLoginForm r \<or> (\<exists>f\<in>set ns. isForm X f \<and> isLoginForm X f))"
  by (induction ns rule: rev_induct) (auto simp: visit_def visitNode_HasLoginForm)

lemma fold_linkOf:
  "fold (linkOf U b) ns links = links @ List.map_filter (probeTarget U b) ns"
  by (induction ns rule: rev_induct)
     (simp_all add: linkOf_probeTarget map_filter_snoc List.map_filter_simps split: option.splits)

lemma extractLinks_probeTargets:
  "extractLinks U doc b = List.map_filter (probeTarget U b) (nodes doc)"
  by (simp add: extractLinks_def extractLinks_fold fold_linkOf)

lemma counted_split:
  "length (filter (countedAnchor X U b) ns) =
     length (filter (internalAnchor X U b) ns) + length (filter (externalAnchor X U b) ns)"
  by (induction ns)
     (auto simp: countedAnchor_def internalAnchor_def externalAnchor_def split: option.splits)

lemma probeTarget_counted:
  "probeTarget U b n = Some l \<Longrightarrow> countedAnchor X U b n"
  by (auto simp: probeTarget_def countedAnchor_def isAnchor_def split: if_splits option.splits)

lemma extractLinks_le_counted:
  "length (extractLinks U doc b) \<le> length (filter (countedAnchor X U b) (nodes doc))"
  unfolding extractLinks_probeTargets
  by (rule length_map_filter_le) (rule probeTarget_counted)

lemma fold_checkInput:
  "fold (checkInput X) ns (p, u) =
     (p \<or> (\<exists>n\<in>set ns. passwordInput X n), u \<or> (\<exists>n\<in>set ns. usernameInput X n))"
  by (induction ns arbitrary: p u) (auto simp: checkInput_flags)

lemma isLoginForm_nodes:
  "isLoginForm X f \<longleftrightarrow> (\<exists>n\<in>set (nodes f). passwordInput X n) \<and> (\<exists>n\<in>set (nodes f). usernameInput X n)"
  by (simp add: isLoginForm_def checkFormFields_fold fold_checkInput)

lemma form_not_input: "isForm X f \<Longrightarrow> \<not> isInput f"
  by (auto simp: isForm_def isInput_def)

lemma isLoginForm_descendants:
  assumes "isForm X f"
  shows "isLoginForm X f \<longleftrightarrow>
     (\<exists>n\<in>set (nodesOf (Children f)). passwordInput X n)
     \<and> (\<exists>n\<in>set (nodesOf (Children f)). usernameInput X n)"
proof -
  have "\<not> passwordInput X f" "\<not> usernameInput X f"
    using form_not_input [OF assms] by (simp_all add: passwordInput_def usernameInput_def)
  then show ?thesis
    unfolding isLoginForm_nodes by (subst (1 2) nodes_Children) simp
qed

section \<open>The worker pool: invariant, progress, termination\<close>

lemma poolInv_start: "poolInv check links (nat (maxWorkers config links)) (startPool config links)"
  by (simp add: poolInv_def startPool_def failures_def)

lemma prefix_drop_tail: "prefix (xs @ ys @ zs) l \<Longrightarrow> prefix (xs @ ys) l"
  by (metis append_assoc append_prefixD)

lemma poolInv_step:
  assumes "poolStep check cap s s'" and "poolInv check links w s"
  shows "poolInv check links w s'"
  using assms
proof (induction rule: poolStep.induct)
  case (cancel s)
  then show ?case
    by (auto simp: poolInv_def dest: prefix_drop_tail)
qed (auto simp: poolInv_def failures_def)

lemma poolInv_steps:
  assumes "(poolStep check cap)\<^sup>*\<^sup>* s s'" and "poolInv check links w s"
  shows "poolInv check links w s'"
  using assms by (induction rule: rtranclp_induct) (auto intro: poolInv_step)

text \<open>No run goes on for ever: every step lowers \<open>poolMeasure\<close>.\<close>

lemma poolStep_measure:
  "poolStep check cap s s' \<Longrightarrow> poolMeasure s' < poolMeasure s"
  by (induction rule: poolStep.induct) (auto simp: poolMeasure_def)

text \<open>No run gets stuck: until the collector is done some goroutine can take a step,
  and never the \<open>cancel\<close> step only. In particular neither channel is ever full.\<close>

lemma pool_progress:
  assumes "poolInv check links w s" and "\<not> poolDone s" and "cap = length links"
  shows "\<exists>s'. poolStep check cap s s'"
proof -
  have bound: "length (probed s) + length (jobs s) + length (pending s) \<le> cap"
    using assms(1,3) by (auto simp: poolInv_def dest: prefix_length_le)
  have flight: "length (inFlight s) \<le> length (probed s)"
    using assms(1) by (auto simp: poolInv_def)
  show ?thesis
  proof (cases "results s")
    case (Cons b bs)
    then show ?thesis by (blast intro: poolStep.collect)
  next
    case Nil
    then have open_results: "\<not> resultsClosed s"
      using assms(2) by (simp add: poolDone_def)
    show ?thesis
    proof (cases "inFlight s")
      case (Cons l ls)
      then have "inFlight s = [] @ l # ls" by simp
      moreover have "length (results s) < cap"
        using Nil Cons bound flight by simp
      ultimately show ?thesis by (blast intro: poolStep.report)
    next
      case no_flight: Nil
      show ?thesis
      proof (cases "receiving s = 0")
        case True
        then show ?thesis
          using no_flight open_results by (blast intro: poolStep.closeResults)
      next
        case False
        then have recv: "0 < receiving s" by simp
        show ?thesis
        proof (cases "jobs s")
          case (Cons l ls)
          then show ?thesis using recv by (blast intro: poolStep.take)
        next
          case no_jobs: Nil
          show ?thesis
          proof (cases "jobsClosed s")
            case True
            then show ?thesis using no_jobs recv by (blast intro: poolStep.leave)
          next
            case False
            show ?thesis
            proof (cases "pending s")
              case Nil
              then show ?thesis using False by (blast intro: poolStep.sent)
            next
              case (Cons l ls)
              moreover have "length (jobs s) < cap"
                using no_jobs Cons bound by simp
              ultimately show ?thesis using False by (blast intro: poolStep.send)
            qed
          qed
        qed
      qed
    qed
  qed
qed

lemma pool_terminates:
  assumes "poolInv check links w s"
  shows "\<exists>s'. (poolStep check (length links))\<^sup>*\<^sup>* s s' \<and> poolDone s'"
  using assms
proof (induction "poolMeasure s" arbitrary: s rule: less_induct)
  case less
  show ?case
  proof (cases "poolDone s")
    case True
    then show ?thesis by blast
  next
    case False
    then obtain s1 where step: "poolStep check (length links) s s1"
      using pool_progress [OF less.prems] by blast
    then have "poolMeasure s1 < poolMeasure s" and "poolInv check links w s1"
      using poolStep_measure poolInv_step less.prems by blast+
    then obtain s' where "(poolStep check (length links))\<^sup>*\<^sup>* s1 s'" and "poolDone s'"
      using less.hyps by blast
    then show ?thesis
      using step by (blast intro: converse_rtranclp_into_rtranclp)
  qed
qed

lemma checkLinksAccessibility_returns:
  "\<exists>out. checkLinksAccessibility H config links out"
proof (cases "length links = 0")
  case True
  then show ?thesis by (blast intro: checkLinksAccessibility.noLinks)
next
  case False
  obtain s where "(poolStep (checkSingleLink H config) (length links))\<^sup>*\<^sup>* (startPool config links) s"
    and "poolDone s"
    using pool_terminates [OF poolInv_start] by blast
  then show ?thesis
    using False by (blast intro: checkLinksAccessibility.collected)
qed

lemma checkLinksAccessibility_bounds:
  assumes "checkLinksAccessibility H config links (n, ps)"
  shows "n = int (failures (checkSingleLink H config) ps) \<and> prefix ps links"
  using assms
proof (cases rule: checkLinksAccessibility.cases)
  case noLinks
  then show ?thesis by (simp add: failures_def)
next
  case (collected s)
  then have inv: "poolInv (checkSingleLink H config) links (nat (maxWorkers config links)) s"
    using poolInv_steps poolInv_start by blast
  have "inFlight s = []" "results s = []"
    using inv collected(5) by (auto simp: poolInv_def poolDone_def)
  then show ?thesis
    using inv collected(1,2)
    by (auto simp: poolInv_def failures_def dest: prefix_drop_tail append_prefixD)
qed

lemma failures_le: "failures check ls \<le> length ls"
  by (simp add: failures_def)

section \<open>Link counters and the probe set\<close>

text \<open>
  C1, as the specification states it: the internal and external counters add up to the
  number of anchors whose first \<^verbatim>\<open>href\<close> attribute parses and resolves to an HTTP or
  HTTPS address, and an anchor with another scheme increments neither counter. This fails:
  on \<open>mailPage\<close>, fetched from \<^verbatim>\<open>https://example.com\<close>, the mail link is counted as an
  external link, so the counters add up to 2 while one anchor resolves to HTTP(S). Only
  the probe set leaves the mail link out.
\<close>

theorem C1_counters_ignore_scheme:
  "InternalLinks (analyzeDocument exampleUnicode exampleURLs mailPage (newResult ''https://example.com'') exampleBase)
     + ExternalLinks (analyzeDocument exampleUnicode exampleURLs mailPage (newResult ''https://example.com'') exampleBase)
     = 2
   \<and> ExternalLinks (analyzeDocument exampleUnicode exampleURLs mailPage (newResult ''https://example.com'') exampleBase)
     = 1
   \<and> length (filter (specCountedAnchor exampleUnicode exampleURLs exampleBase) (nodes mailPage)) = 1
   \<and> extractLinks exampleURLs mailPage exampleBase = [''https://example.com/x'']"
  by code_simp

text \<open>
  C1, amended: the internal and external counters add up to the number of anchor elements
  that have an \<^verbatim>\<open>href\<close> attribute that parses, whatever its scheme; the first such attribute
  is resolved against the base address and the anchor is internal when the resolved host
  equals the base host, external otherwise. An anchor without an \<^verbatim>\<open>href\<close> that parses
  changes nothing and adds nothing to the probe set. The probe set holds, in document
  order, the resolved addresses of the \<^verbatim>\<open>a\<close> elements whose resolved scheme is
  \<^verbatim>\<open>http\<close> or \<^verbatim>\<open>https\<close>.
\<close>

theorem C1_link_counters:
  "InternalLinks (analyzeDocument X U doc (newResult t) base)
     + ExternalLinks (analyzeDocument X U doc (newResult t) base)
     = int (length (filter (countedAnchor X U base) (nodes doc)))
   \<and> InternalLinks (analyzeDocument X U doc (newResult t) base)
     = int (length (filter (internalAnchor X U base) (nodes doc)))
   \<and> ExternalLinks (analyzeDocument X U doc (newResult t) base)
     = int (length (filter (externalAnchor X U base) (nodes doc)))
   \<and> extractLinks U doc base = List.map_filter (probeTarget U base) (nodes doc)
   \<and> (resolvedHref U base n = None \<longrightarrow>
        processLink U n r base = r \<and> probeTarget U base n = None)"
proof -
  have "resolvedHref U base n = None \<longrightarrow> processLink U n r base = r \<and> probeTarget U base n = None"
    by (simp add: processLink_resolved probeTarget_def)
  then show ?thesis
    by (simp add: analyzeDocument_fold fold_visit_links counted_split newResult_def
        extractLinks_probeTargets)
qed

theorem C1_link_counters_witness:
  "resolvedHref exampleURLs exampleBase (Node ElementNode ''a'' [Attribute '''' ''href'' ''://invalid-url''] [])
     = None
   \<and> processLink exampleURLs (Node ElementNode ''a'' [Attribute '''' ''href'' ''://invalid-url''] [])
        (newResult ''https://example.com'') exampleBase = newResult ''https://example.com''
   \<and> InternalLinks (analyzeDocument exampleUnicode exampleURLs scenarioDoc (newResult ''https://example.com'') exampleBase)
     + ExternalLinks (analyzeDocument exampleUnicode exampleURLs scenarioDoc (newResult ''https://example.com'') exampleBase)
     = 2"
proof -
  have none: "resolvedHref exampleURLs exampleBase
      (Node ElementNode ''a'' [Attribute '''' ''href'' ''://invalid-url''] []) = None"
    by code_simp
  have two: "int (length (filter (countedAnchor exampleUnicode exampleURLs exampleBase) (nodes scenarioDoc))) = 2"
    by code_simp
  show ?thesis
    using C1_link_counters [of exampleUnicode exampleURLs scenarioDoc "''https://example.com''" exampleBase
        "Node ElementNode ''a'' [Attribute '''' ''href'' ''://invalid-url''] []"
        "newResult ''https://example.com''"] none two
    by simp
qed

section \<open>Heading counts\<close>

text \<open>
  C2, as the specification states it: after analysis all six keys \<^verbatim>\<open>h1\<close>..\<^verbatim>\<open>h6\<close> are
  present in the headings map, also with count zero. This fails: the map starts empty and
  a key is written only when a heading of that level is met. The scenario document has
  no \<^verbatim>\<open>h3\<close>, and the key \<^verbatim>\<open>h3\<close> is absent from its result.
\<close>

theorem C2_unseen_level_absent:
  "''h3'' \<in> set headingLevels
   \<and> headingCount exampleUnicode ''h3'' scenarioDoc = 0
   \<and> ''h3'' \<notin> dom (Headings (analyzeDocument exampleUnicode exampleURLs scenarioDoc
                                 (newResult ''https://example.com'') exampleBase))"
proof -
  have "Headings (analyzeDocument exampleUnicode exampleURLs scenarioDoc
      (newResult ''https://example.com'') exampleBase) ''h3'' = None"
    by code_simp
  moreover have "headingCount exampleUnicode ''h3'' scenarioDoc = 0"
    by code_simp
  ultimately show ?thesis
    by (auto simp: headingLevels_def)
qed

text \<open>
  C2, amended: for every level \<^verbatim>\<open>h1\<close>..\<^verbatim>\<open>h6\<close>, reading the headings map at that level
  after analysis gives the number of element nodes of the tree with that tag, every
  occurrence counted; the key is present in the map exactly when that number is not zero.
\<close>

theorem C2_heading_counts:
  "level \<in> set headingLevels \<Longrightarrow>
     mapIndex (Headings (analyzeDocument X U doc (newResult t) base)) level
       = int (headingCount X level doc)
     \<and> (level \<in> dom (Headings (analyzeDocument X U doc (newResult t) base))
          \<longleftrightarrow> 0 < headingCount X level doc)"
  by (auto simp: analyzeDocument_fold fold_visit_Headings headingCount_def mapIndex_def
      newResult_def dom_def)

theorem C2_heading_counts_witness:
  "''h2'' \<in> set headingLevels
   \<and> mapIndex (Headings (analyzeDocument exampleUnicode exampleURLs scenarioDoc
        (newResult ''https://example.com'') exampleBase)) ''h2'' = 2
   \<and> ''h2'' \<in> dom (Headings (analyzeDocument exampleUnicode exampleURLs scenarioDoc
        (newResult ''https://example.com'') exampleBase))"
proof -
  have level: "''h2'' \<in> set headingLevels"
    by (simp add: headingLevels_def)
  have two: "headingCount exampleUnicode ''h2'' scenarioDoc = 2"
    by code_simp
  show ?thesis
    using C2_heading_counts [OF level, of exampleUnicode exampleURLs scenarioDoc "''https://example.com''"
        exampleBase] level two
    by simp
qed

section \<open>Document version\<close>

text \<open>
  C3, as the specification states it: a document without a doctype node has version
  HTML5. This fails: the version is written only at a doctype node, so without one it
  stays the empty string the result starts with. \<open>mailPage\<close> has no doctype.
\<close>

theorem C3_no_doctype_no_version:
  "doctypeNodes mailPage = []
   \<and> HTMLVersion (analyzeDocument exampleUnicode exampleURLs mailPage (newResult ''https://example.com'') exampleBase)
       = ''''
   \<and> HTMLVersion (analyzeDocument exampleUnicode exampleURLs mailPage (newResult ''https://example.com'') exampleBase)
       \<noteq> ''HTML5''"
proof -
  have "doctypeNodes mailPage = []"
    by code_simp
  moreover have "HTMLVersion (analyzeDocument exampleUnicode exampleURLs mailPage
      (newResult ''https://example.com'') exampleBase) = ''''"
    by code_simp
  ultimately show ?thesis by simp
qed

text \<open>
  C3, amended: after analysis of a document without a doctype node the version is the
  empty string. After analysis of a document whose doctype declaration (the last one in
  document order, should there be several) is a bare name, with no public or system
  identifier, the version is HTML5 when the trimmed, lower-cased name is exactly
  \<^verbatim>\<open>html\<close>, and HTML5 as well when the name is not recognized, that is, contains neither
  \<^verbatim>\<open>xhtml\<close> nor \<^verbatim>\<open>html 4\<close>. Nothing is said of any other declaration.
\<close>

theorem C3_document_version:
  "(doctypeNodes doc = [] \<longrightarrow>
      HTMLVersion (analyzeDocument X U doc (newResult t) base) = '''')
   \<and> (doctypeNodes doc \<noteq> [] \<and> \<not> hasIdentifiers (last (doctypeNodes doc))
        \<and> ToLower X (TrimSpace X (Data (last (doctypeNodes doc)))) = ''html'' \<longrightarrow>
        HTMLVersion (analyzeDocument X U doc (newResult t) base) = ''HTML5'')
   \<and> (doctypeNodes doc \<noteq> [] \<and> \<not> hasIdentifiers (last (doctypeNodes doc))
        \<and> \<not> Contains (ToLower X (TrimSpace X (Data (last (doctypeNodes doc))))) ''xhtml''
        \<and> \<not> Contains (ToLower X (TrimSpace X (Data (last (doctypeNodes doc))))) ''html 4'' \<longrightarrow>
        HTMLVersion (analyzeDocument X U doc (newResult t) base) = ''HTML5'')"
proof -
  have version: "HTMLVersion (analyzeDocument X U doc (newResult t) base) =
      (if doctypeNodes doc = [] then ''''
       else detectHTMLVersion X (Data (last (doctypeNodes doc))))"
    by (simp add: analyzeDocument_fold fold_visit_HTMLVersion doctypeNodes_def newResult_def)
  show ?thesis
    unfolding version by (auto simp: detectHTMLVersion_def Let_def)
qed

theorem C3_document_version_witness:
  "doctypeNodes mailPage = []
   \<and> HTMLVersion (analyzeDocument exampleUnicode exampleURLs mailPage
        (newResult ''https://example.com'') exampleBase) = ''''
   \<and> doctypeNodes scenarioDoc \<noteq> [] \<and> \<not> hasIdentifiers (last (doctypeNodes scenarioDoc))
   \<and> ToLower exampleUnicode (TrimSpace exampleUnicode (Data (last (doctypeNodes scenarioDoc))))
       = ''html''
   \<and> HTMLVersion (analyzeDocument exampleUnicode exampleURLs scenarioDoc
        (newResult ''https://example.com'') exampleBase) = ''HTML5''
   \<and> doctypeNodes unknownDoctypePage \<noteq> []
   \<and> \<not> hasIdentifiers (last (doctypeNodes unknownDoctypePage))
   \<and> ToLower exampleUnicode (TrimSpace exampleUnicode
        (Data (last (doctypeNodes unknownDoctypePage)))) = ''svg''
   \<and> HTMLVersion (analyzeDocument exampleUnicode exampleURLs unknownDoctypePage
        (newResult ''https://example.com'') exampleBase) = ''HTML5''"
proof -
  have none: "doctypeNodes mailPage = []"
    by code_simp
  have empty: "HTMLVersion (analyzeDocument exampleUnicode exampleURLs mailPage
      (newResult ''https://example.com'') exampleBase) = ''''"
    using C3_document_version [of mailPage exampleUnicode exampleURLs "''https://example.com''"
        exampleBase] none
    by simp
  have d5: "doctypeNodes scenarioDoc \<noteq> []" "\<not> hasIdentifiers (last (doctypeNodes scenarioDoc))"
    "ToLower exampleUnicode (TrimSpace exampleUnicode (Data (last (doctypeNodes scenarioDoc))))
       = ''html''"
    by code_simp+
  have five: "HTMLVersion (analyzeDocument exampleUnicode exampleURLs scenarioDoc
      (newResult ''https://example.com'') exampleBase) = ''HTML5''"
    using C3_document_version [of scenarioDoc exampleUnicode exampleURLs
        "''https://example.com''" exampleBase] d5
    by blast
  have du: "doctypeNodes unknownDoctypePage \<noteq> []"
    "\<not> hasIdentifiers (last (doctypeNodes unknownDoctypePage))"
    "ToLower exampleUnicode (TrimSpace exampleUnicode
        (Data (last (doctypeNodes unknownDoctypePage)))) = ''svg''"
    by code_simp+
  have "\<not> Contains (ToLower exampleUnicode (TrimSpace exampleUnicode
        (Data (last (doctypeNodes unknownDoctypePage))))) ''xhtml''"
    "\<not> Contains (ToLower exampleUnicode (TrimSpace exampleUnicode
        (Data (last (doctypeNodes unknownDoctypePage))))) ''html 4''"
    unfolding du(3) by code_simp+
  then have unknown: "HTMLVersion (analyzeDocument exampleUnicode exampleURLs unknownDoctypePage
      (newResult ''https://example.com'') exampleBase) = ''HTML5''"
    using C3_document_version [of unknownDoctypePage exampleUnicode exampleURLs
        "''https://example.com''" exampleBase] du(1,2)
    by blast
  show ?thesis
    using none empty d5 five du unknown by simp
qed

text \<open>
  A declaration with identifiers. The page \<open>xhtmlPage\<close> is declared XHTML 1.0 Strict; the
  data of its doctype node is the name \<^verbatim>\<open>html\<close>, the traversal passes the data alone to
  \<^verbatim>\<open>detectHTMLVersion\<close>, and the version recorded is HTML5.
\<close>

lemma xhtmlPage_version:
  "hasIdentifiers (last (doctypeNodes xhtmlPage))
   \<and> HTMLVersion (analyzeDocument exampleUnicode exampleURLs xhtmlPage
        (newResult ''https://example.com'') exampleBase) = ''HTML5''"
  by code_simp

section \<open>Credential forms\<close>

text \<open>
  C4, as the specification states it: a form is a login form if and only if it has a
  descendant password input and a descendant input named like a user field whose type
  attribute is absent, \<^verbatim>\<open>text\<close> or \<^verbatim>\<open>email\<close>. This fails: the code compares the type with
  the empty string, which is also what a type attribute that is present and empty gives.
  \<open>emptyTypeForm\<close> is flagged, and none of its inputs has a user-like name with the type
  attribute absent, \<^verbatim>\<open>text\<close> or \<^verbatim>\<open>email\<close>.
\<close>

theorem C4_empty_type_is_flagged:
  "isForm exampleUnicode emptyTypeForm
   \<and> isLoginForm exampleUnicode emptyTypeForm
   \<and> \<not> ((\<exists>n\<in>set (nodesOf (Children emptyTypeForm)). passwordInput exampleUnicode n)
         \<and> (\<exists>n\<in>set (nodesOf (Children emptyTypeForm)). specUsernameInput exampleUnicode n))"
  by code_simp

text \<open>
  C4, amended: for every form element, \<^verbatim>\<open>isLoginForm\<close> returns true if and only if the form
  has at least one descendant \<^verbatim>\<open>input\<close> of type \<^verbatim>\<open>password\<close> (case-insensitive) and at
  least one descendant \<^verbatim>\<open>input\<close> whose name contains \<^verbatim>\<open>user\<close>, \<^verbatim>\<open>email\<close> or \<^verbatim>\<open>login\<close>
  (case-insensitive) while its type is absent, empty, \<^verbatim>\<open>text\<close> or \<^verbatim>\<open>email\<close>; the type and
  the name of an input are those of its last \<^verbatim>\<open>type\<close> and last \<^verbatim>\<open>name\<close> attribute. A form
  with only one of the two kinds of field is not flagged, and the page-level flag is the
  disjunction over all form elements of the document.
\<close>

theorem C4_login_form:
  "(isForm X f \<longrightarrow>
      (isLoginForm X f \<longleftrightarrow>
         (\<exists>n\<in>set (nodesOf (Children f)). passwordInput X n)
         \<and> (\<exists>n\<in>set (nodesOf (Children f)). usernameInput X n)))
   \<and> (specUsernameInput X n \<longrightarrow> usernameInput X n)
   \<and> (HasLoginForm (analyzeDocument X U doc (newResult t) base)
        \<longleftrightarrow> (\<exists>g\<in>set (nodes doc). isForm X g \<and> isLoginForm X g))"
proof -
  have absent: "(\<forall>a\<in>set as. Key a \<noteq> k) \<Longrightarrow> lastAttr X k as = ''''" for k as
  proof -
    assume "\<forall>a\<in>set as. Key a \<noteq> k"
    then have "find (\<lambda>a. Key a = k) (rev as) = None"
      by (simp add: find_None_iff)
    then show ?thesis by (simp add: lastAttr_def)
  qed
  have "specUsernameInput X n \<longrightarrow> usernameInput X n"
    by (auto simp: specUsernameInput_def usernameInput_def dest: absent)
  moreover have "HasLoginForm (analyzeDocument X U doc (newResult t) base)
      \<longleftrightarrow> (\<exists>g\<in>set (nodes doc). isForm X g \<and> isLoginForm X g)"
    by (simp add: analyzeDocument_fold fold_visit_HasLoginForm newResult_def)
  ultimately show ?thesis
    using isLoginForm_descendants [of X f] by blast
qed

theorem C4_login_form_witness:
  "isForm exampleUnicode loginForm
   \<and> (\<exists>n\<in>set (nodesOf (Children loginForm)). passwordInput exampleUnicode n)
   \<and> (\<exists>n\<in>set (nodesOf (Children loginForm)). usernameInput exampleUnicode n)
   \<and> isLoginForm exampleUnicode loginForm
   \<and> isForm exampleUnicode unicodeLoginForm
   \<and> ToLower exampleUnicode ''PASSWORD'' = ''password''
   \<and> ToLower exampleUnicode (''LOG'' @ [CHR 0xC4, CHR 0xB0] @ ''N'') = ''login''
   \<and> (\<exists>n\<in>set (nodesOf (Children unicodeLoginForm)). passwordInput exampleUnicode n)
   \<and> (\<exists>n\<in>set (nodesOf (Children unicodeLoginForm)). usernameInput exampleUnicode n)
   \<and> isLoginForm exampleUnicode unicodeLoginForm
   \<and> isForm exampleUnicode (Node ElementNode ''FORM'' [] [Node ElementNode ''input''
          [Attribute '''' ''type'' ''password''] []])
   \<and> \<not> isLoginForm exampleUnicode (Node ElementNode ''FORM'' [] [Node ElementNode ''input''
          [Attribute '''' ''type'' ''password''] []])
   \<and> specUsernameInput exampleUnicode (Node ElementNode ''input''
          [Attribute '''' ''name'' ''User_Email''] [])
   \<and> usernameInput exampleUnicode (Node ElementNode ''input''
          [Attribute '''' ''name'' ''User_Email''] [])"
proof -
  let ?only = "Node ElementNode ''FORM'' [] [Node ElementNode ''input''
      [Attribute '''' ''type'' ''password''] []]"
  let ?named = "Node ElementNode ''input'' [Attribute '''' ''name'' ''User_Email''] []"
  have form: "isForm exampleUnicode loginForm"
    by code_simp
  have pw: "\<exists>n\<in>set (nodesOf (Children loginForm)). passwordInput exampleUnicode n"
    by code_simp
  have user: "\<exists>n\<in>set (nodesOf (Children loginForm)). usernameInput exampleUnicode n"
    by code_simp
  have login: "isLoginForm exampleUnicode loginForm"
    using C4_login_form [of exampleUnicode loginForm] form pw user by blast
  have uform: "isForm exampleUnicode unicodeLoginForm"
    by code_simp
  have lower: "ToLower exampleUnicode ''PASSWORD'' = ''password''"
    "ToLower exampleUnicode (''LOG'' @ [CHR 0xC4, CHR 0xB0] @ ''N'') = ''login''"
    by code_simp+
  have upw: "\<exists>n\<in>set (nodesOf (Children unicodeLoginForm)). passwordInput exampleUnicode n"
    by code_simp
  have uuser: "\<exists>n\<in>set (nodesOf (Children unicodeLoginForm)). usernameInput exampleUnicode n"
    by code_simp
  have ulogin: "isLoginForm exampleUnicode unicodeLoginForm"
    using C4_login_form [of exampleUnicode unicodeLoginForm] uform upw uuser by blast
  have oform: "isForm exampleUnicode ?only"
    by code_simp
  have nouser: "\<not> (\<exists>n\<in>set (nodesOf (Children ?only)). usernameInput exampleUnicode n)"
    by code_simp
  have notlogin: "\<not> isLoginForm exampleUnicode ?only"
    using C4_login_form [of exampleUnicode ?only] oform nouser by blast
  have spec: "specUsernameInput exampleUnicode ?named"
    by code_simp
  have named: "usernameInput exampleUnicode ?named"
    using C4_login_form [of exampleUnicode _ ?named] spec by blast
  show ?thesis
    using form pw user login uform lower upw uuser ulogin oform notlogin spec named by simp
qed

section \<open>Title\<close>



section \<open>The order of the version checks\<close>

lemma not_Contains_html [simp]:
  "\<not> Contains ''html'' ''xhtml''" "\<not> Contains ''html'' ''html 4''"
  by simp_all

text \<open>
  C10: \<^verbatim>\<open>detectHTMLVersion\<close> returns one of HTML5, XHTML and HTML 4.01 for every string,
  and checks in a fixed order: the exact literal \<^verbatim>\<open>html\<close> first, then the substring
  \<^verbatim>\<open>xhtml\<close>, then the substring \<^verbatim>\<open>html 4\<close>. A literal containing both \<^verbatim>\<open>xhtml\<close> and
  \<^verbatim>\<open>html 4\<close> is XHTML.
\<close>

theorem C10_detectHTMLVersion_ordered:
  "detectHTMLVersion X d \<in> {''HTML5'', ''XHTML'', ''HTML 4.01''}
   \<and> (ToLower X (TrimSpace X d) = ''html'' \<longrightarrow> detectHTMLVersion X d = ''HTML5'')
   \<and> (ToLower X (TrimSpace X d) \<noteq> ''html'' \<and> Contains (ToLower X (TrimSpace X d)) ''xhtml''
        \<longrightarrow> detectHTMLVersion X d = ''XHTML'')
   \<and> (ToLower X (TrimSpace X d) \<noteq> ''html'' \<and> \<not> Contains (ToLower X (TrimSpace X d)) ''xhtml''
        \<and> Contains (ToLower X (TrimSpace X d)) ''html 4'' \<longrightarrow> detectHTMLVersion X d = ''HTML 4.01'')
   \<and> (Contains (ToLower X (TrimSpace X d)) ''xhtml'' \<and> Contains (ToLower X (TrimSpace X d)) ''html 4''
        \<longrightarrow> detectHTMLVersion X d = ''XHTML'')"
  by (auto simp: detectHTMLVersion_def Let_def)

theorem C10_detectHTMLVersion_ordered_witness:
  "Contains (ToLower exampleUnicode (TrimSpace exampleUnicode '' XHTML html 4 '')) ''xhtml''
   \<and> Contains (ToLower exampleUnicode (TrimSpace exampleUnicode '' XHTML html 4 '')) ''html 4''
   \<and> detectHTMLVersion exampleUnicode '' XHTML html 4 '' = ''XHTML''
   \<and> ToLower exampleUnicode (TrimSpace exampleUnicode ''  HTML  '') = ''html''
   \<and> detectHTMLVersion exampleUnicode ''  HTML  '' = ''HTML5''
   \<and> ToLower exampleUnicode (TrimSpace exampleUnicode ''HTML 4.01'') \<noteq> ''html''
   \<and> \<not> Contains (ToLower exampleUnicode (TrimSpace exampleUnicode ''HTML 4.01'')) ''xhtml''
   \<and> Contains (ToLower exampleUnicode (TrimSpace exampleUnicode ''HTML 4.01'')) ''html 4''
   \<and> detectHTMLVersion exampleUnicode ''HTML 4.01'' = ''HTML 4.01''"
proof -
  have l: "ToLower exampleUnicode (TrimSpace exampleUnicode '' XHTML html 4 '') = ''xhtml html 4''"
    by code_simp
  have a: "Contains ''xhtml html 4'' ''xhtml''" and b: "Contains ''xhtml html 4'' ''html 4''"
    by simp_all
  have both: "detectHTMLVersion exampleUnicode '' XHTML html 4 '' = ''XHTML''"
    using C10_detectHTMLVersion_ordered [of exampleUnicode "'' XHTML html 4 ''"] a b unfolding l by simp
  have l5: "ToLower exampleUnicode (TrimSpace exampleUnicode ''  HTML  '') = ''html''"
    by code_simp
  have exact: "detectHTMLVersion exampleUnicode ''  HTML  '' = ''HTML5''"
    using C10_detectHTMLVersion_ordered [of exampleUnicode "''  HTML  ''"] l5 by simp
  have l4: "ToLower exampleUnicode (TrimSpace exampleUnicode ''HTML 4.01'') = ''html 4.01''"
    by code_simp
  have four: "detectHTMLVersion exampleUnicode ''HTML 4.01'' = ''HTML 4.01''"
    using C10_detectHTMLVersion_ordered [of exampleUnicode "''HTML 4.01''"] unfolding l4 by simp
  show ?thesis
    using both exact four a b unfolding l l5 l4 by simp
qed

section \<open>A run of the example\<close>

text \<open>
  The analysis of \<^verbatim>\<open>https://example.com\<close> in the example network: the page is fetched,
  its one HTTP link is probed by the one worker started, the probe fails (404), and the
  result is returned with one inaccessible link.
\<close>

lemma example_probe:
  "checkLinksAccessibility exampleHTTP exampleConfig [''https://example.com/x'']
     (1, [''https://example.com/x''])"
proof -
  let ?x = "''https://example.com/x''"
  let ?check = "checkSingleLink exampleHTTP exampleConfig"
  let ?S0 = "\<lparr>pending = [?x], jobsClosed = False, jobs = [], receiving = 1, inFlight = [],
      finished = 0, results = [], resultsClosed = False, inaccessible = 0, processed = 0,
      probed = []\<rparr>"
  let ?S1 = "\<lparr>pending = [], jobsClosed = False, jobs = [?x], receiving = 1, inFlight = [],
      finished = 0, results = [], resultsClosed = False, inaccessible = 0, processed = 0,
      probed = []\<rparr>"
  let ?S2 = "\<lparr>pending = [], jobsClosed = True, jobs = [?x], receiving = 1, inFlight = [],
      finished = 0, results = [], resultsClosed = False, inaccessible = 0, processed = 0,
      probed = []\<rparr>"
  let ?S3 = "\<lparr>pending = [], jobsClosed = True, jobs = [], receiving = 0, inFlight = [?x],
      finished = 0, results = [], resultsClosed = False, inaccessible = 0, processed = 0,
      probed = [?x]\<rparr>"
  let ?S4 = "\<lparr>pending = [], jobsClosed = True, jobs = [], receiving = 1, inFlight = [],
      finished = 0, results = [False], resultsClosed = False, inaccessible = 0, processed = 0,
      probed = [?x]\<rparr>"
  let ?S5 = "\<lparr>pending = [], jobsClosed = True, jobs = [], receiving = 0, inFlight = [],
      finished = 1, results = [False], resultsClosed = False, inaccessible = 0, processed = 0,
      probed = [?x]\<rparr>"
  let ?S6 = "\<lparr>pending = [], jobsClosed = True, jobs = [], receiving = 0, inFlight = [],
      finished = 1, results = [False], resultsClosed = True, inaccessible = 0, processed = 0,
      probed = [?x]\<rparr>"
  let ?S7 = "\<lparr>pending = [], jobsClosed = True, jobs = [], receiving = 0, inFlight = [],
      finished = 1, results = [], resultsClosed = True, inaccessible = 1, processed = 1,
      probed = [?x]\<rparr>"
  have start: "startPool exampleConfig [?x] = ?S0"
    by (simp add: startPool_def maxWorkers_def exampleConfig_def)
  have fails: "?check ?x = False"
    by code_simp
  have 1: "poolStep ?check 1 ?S0 ?S1"
    using poolStep.send [of ?S0 ?x "[]" 1 ?check] by simp
  have 2: "poolStep ?check 1 ?S1 ?S2"
    using poolStep.sent [of ?S1 ?check 1] by simp
  have 3: "poolStep ?check 1 ?S2 ?S3"
    using poolStep.take [of ?S2 ?x "[]" ?check 1] by simp
  have 4: "poolStep ?check 1 ?S3 ?S4"
    using poolStep.report [of ?S3 "[]" ?x "[]" 1 ?check] fails by simp
  have 5: "poolStep ?check 1 ?S4 ?S5"
    using poolStep.leave [of ?S4 ?check 1] by simp
  have 6: "poolStep ?check 1 ?S5 ?S6"
    using poolStep.closeResults [of ?S5 ?check 1] by simp
  have 7: "poolStep ?check 1 ?S6 ?S7"
    using poolStep.collect [of ?S6 False "[]" ?check 1] by simp
  have "(poolStep ?check 1)\<^sup>*\<^sup>* ?S0 ?S7"
    using 1 2 3 4 5 6 7 by (meson rtranclp.rtrancl_into_rtrancl rtranclp.rtrancl_refl)
  then have run: "(poolStep ?check (length [?x]))\<^sup>*\<^sup>* (startPool exampleConfig [?x]) ?S7"
    by (simp add: start)
  have "poolDone ?S7"
    by (simp add: poolDone_def)
  with run have "checkLinksAccessibility exampleHTTP exampleConfig [?x]
      (inaccessible ?S7, probed ?S7)"
    by (intro checkLinksAccessibility.collected) simp_all
  then show ?thesis by simp
qed

lemma example_fetch:
  "validateURL exampleURLs ''https://example.com'' = Inr (''https://example.com'', exampleBase)"
  "fetchHTML exampleHTTP exampleConfig ''https://example.com'' = Inr mailPage"
  "extractLinks exampleURLs mailPage exampleBase = [''https://example.com/x'']"
  by code_simp+

lemma example_analysis:
  "AnalyzeURL exampleUnicode exampleURLs exampleHTTP exampleConfig ''https://example.com''
     (Inr ((analyzeDocument exampleUnicode exampleURLs mailPage
              ((newResult ''https://example.com'')\<lparr>URL := ''https://example.com''\<rparr>) exampleBase)
           \<lparr>InaccessibleLinks := 1\<rparr>))"
proof -
  have some: "length (extractLinks exampleURLs mailPage exampleBase) > 0"
    unfolding example_fetch(3) by simp
  have probe: "checkLinksAccessibility exampleHTTP exampleConfig
      (extractLinks exampleURLs mailPage exampleBase) (1, [''https://example.com/x''])"
    unfolding example_fetch(3) by (rule example_probe)
  show ?thesis
    by (rule AnalyzeURL.checked [OF example_fetch(1) example_fetch(2) refl some probe])
qed

section \<open>Worker count\<close>

text \<open>
  C5, as the specification states it: the checker never runs with fewer than one worker
  when the target list is not empty. This fails: the worker limit is used as configured,
  and nothing keeps it above zero (the environment variable \<^verbatim>\<open>MAX_WORKERS\<close> accepts any
  integer). With a limit of 0 and one link no worker is started.
\<close>

theorem C5_no_worker_for_limit_zero:
  "[''https://example.com/x''] \<noteq> []
   \<and> maxWorkers (exampleConfig\<lparr>MaxWorkers := 0\<rparr>) [''https://example.com/x''] = 0
   \<and> receiving (startPool (exampleConfig\<lparr>MaxWorkers := 0\<rparr>) [''https://example.com/x'']) = 0"
  by (simp add: maxWorkers_def startPool_def exampleConfig_def)

text \<open>
  C5, amended: for every target list and configured worker limit \<open>W\<close>, the effective worker
  count is the minimum of \<open>W\<close> and the number of targets; the workers started are never more
  than the targets, their number does not change during a run, and it is at least 1 when
  the target list is not empty and \<open>W\<close> is at least 1. An empty target list returns an
  unreachable count of 0 with no probe made.
\<close>

theorem C5_worker_count:
  "maxWorkers config links = min (MaxWorkers config) (int (length links))
   \<and> receiving (startPool config links) = nat (min (MaxWorkers config) (int (length links)))
   \<and> receiving (startPool config links) \<le> length links
   \<and> (links \<noteq> [] \<and> 1 \<le> MaxWorkers config \<longrightarrow> 1 \<le> receiving (startPool config links))
   \<and> ((poolStep check (length links))\<^sup>*\<^sup>* (startPool config links) s \<longrightarrow>
         receiving s + length (inFlight s) + finished s
           = nat (min (MaxWorkers config) (int (length links))))
   \<and> (checkLinksAccessibility H config [] out \<longleftrightarrow> out = (0, []))"
proof -
  have m: "maxWorkers config links = min (MaxWorkers config) (int (length links))"
    by (simp add: maxWorkers_def min_def)
  have r: "receiving (startPool config links) = nat (min (MaxWorkers config) (int (length links)))"
    by (simp add: startPool_def m)
  have le: "receiving (startPool config links) \<le> length links"
    unfolding r by simp
  have one: "links \<noteq> [] \<and> 1 \<le> MaxWorkers config \<longrightarrow> 1 \<le> receiving (startPool config links)"
    unfolding r by (cases links) auto
  have inv: "(poolStep check (length links))\<^sup>*\<^sup>* (startPool config links) s \<longrightarrow>
      receiving s + length (inFlight s) + finished s
        = nat (min (MaxWorkers config) (int (length links)))"
  proof
    assume "(poolStep check (length links))\<^sup>*\<^sup>* (startPool config links) s"
    then have "poolInv check links (nat (maxWorkers config links)) s"
      by (rule poolInv_steps [OF _ poolInv_start])
    then show "receiving s + length (inFlight s) + finished s
        = nat (min (MaxWorkers config) (int (length links)))"
      by (simp add: poolInv_def m)
  qed
  have empty: "checkLinksAccessibility H config [] out \<longleftrightarrow> out = (0, [])"
    by (auto elim: checkLinksAccessibility.cases intro: checkLinksAccessibility.noLinks)
  show ?thesis
    using m r le one inv empty by blast
qed

theorem C5_worker_count_witness:
  "[''https://example.com/x''] \<noteq> []
   \<and> 1 \<le> MaxWorkers exampleConfig
   \<and> (poolStep (checkSingleLink exampleHTTP exampleConfig) (length [''https://example.com/x'']))\<^sup>*\<^sup>*
        (startPool exampleConfig [''https://example.com/x''])
        (startPool exampleConfig [''https://example.com/x''])
   \<and> 1 \<le> receiving (startPool exampleConfig [''https://example.com/x''])
   \<and> receiving (startPool exampleConfig [''https://example.com/x''])
       + length (inFlight (startPool exampleConfig [''https://example.com/x'']))
       + finished (startPool exampleConfig [''https://example.com/x'']) = 1"
proof -
  let ?x = "''https://example.com/x''"
  note count = C5_worker_count [of exampleConfig "[?x]" "checkSingleLink exampleHTTP exampleConfig"
      "startPool exampleConfig [?x]" exampleHTTP "(0, [])"]
  have limit: "1 \<le> MaxWorkers exampleConfig"
    by (simp add: exampleConfig_def)
  have run: "(poolStep (checkSingleLink exampleHTTP exampleConfig) (length [?x]))\<^sup>*\<^sup>*
      (startPool exampleConfig [?x]) (startPool exampleConfig [?x])"
    by simp
  have one: "1 \<le> receiving (startPool exampleConfig [?x])"
    using count limit by blast
  have "receiving (startPool exampleConfig [?x]) + length (inFlight (startPool exampleConfig [?x]))
      + finished (startPool exampleConfig [?x])
      = nat (min (MaxWorkers exampleConfig) (int (length [?x])))"
    using count run by blast
  then have all: "receiving (startPool exampleConfig [?x])
      + length (inFlight (startPool exampleConfig [?x]))
      + finished (startPool exampleConfig [?x]) = 1"
    by (simp add: exampleConfig_def)
  show ?thesis
    using limit run one all by simp
qed

section \<open>The check of one link\<close>

lemma clientDo_final:
  "clientDo H config verb address via = Inr resp \<Longrightarrow> Location resp = None"
proof (induction H config verb address via rule: clientDo.induct)
  case (1 H config verb address via)
  then show ?case
    by (subst (asm) (2) clientDo.simps) (auto split: sum.splits option.splits)
qed

lemma clientDo_redirects:
  "clientDo H config verb address via = Inr resp \<Longrightarrow>
     \<exists>n final. addressAfter H verb n address = Some final
       \<and> RoundTrip H verb final = Inr resp
       \<and> (n = 0 \<or> int (via + n) < MaxRedirects config)"
proof (induction H config verb address via rule: clientDo.induct)
  case (1 H config verb address via)
  from "1.prems" obtain first where first: "RoundTrip H verb address = Inr first"
    by (subst (asm) clientDo.simps) (auto split: sum.splits)
  show ?case
  proof (cases "Location first")
    case None
    then have "resp = first"
      using "1.prems" first by (subst (asm) clientDo.simps) simp
    then have "addressAfter H verb 0 address = Some address
        \<and> RoundTrip H verb address = Inr resp"
      using first by simp
    then show ?thesis by blast
  next
    case (Some target)
    have allowed: "CheckRedirect config (Suc via) = None"
      using "1.prems" first Some
      by (subst (asm) clientDo.simps) (auto split: option.splits)
    then have rest: "clientDo H config verb target (Suc via) = Inr resp"
      using "1.prems" first Some by (subst (asm) clientDo.simps) simp
    obtain n final where n: "addressAfter H verb n target = Some final"
      and final: "RoundTrip H verb final = Inr resp"
      and bound: "n = 0 \<or> int (Suc via + n) < MaxRedirects config"
      using "1.IH" [OF first Some allowed rest] by blast
    have "int (Suc via) < MaxRedirects config"
      using allowed by (simp add: CheckRedirect_def split: if_splits)
    then have "int (via + Suc n) < MaxRedirects config"
      using bound by auto
    moreover have "addressAfter H verb (Suc n) address = Some final"
      using first Some n by simp
    ultimately show ?thesis
      using final by blast
  qed
qed

text \<open>Conversely, a chain of redirects that stays below the ceiling is followed to its
  end.\<close>

lemma clientDo_follows:
  "addressAfter H verb n address = Some final \<Longrightarrow>
   RoundTrip H verb final = Inr resp \<Longrightarrow> Location resp = None \<Longrightarrow>
   n = 0 \<or> int (via + n) < MaxRedirects config \<Longrightarrow>
   clientDo H config verb address via = Inr resp"
proof (induction n arbitrary: address via)
  case 0
  then show ?case
    by (subst clientDo.simps) simp
next
  case (Suc n)
  from Suc.prems(1) obtain first target where first: "RoundTrip H verb address = Inr first"
    and target: "Location first = Some target"
    and rest: "addressAfter H verb n target = Some final"
    by (auto split: sum.splits option.splits)
  have below: "int (via + Suc n) < MaxRedirects config"
    using Suc.prems(4) by simp
  then have allowed: "CheckRedirect config (Suc via) = None"
    by (simp add: CheckRedirect_def)
  have "n = 0 \<or> int (Suc via + n) < MaxRedirects config"
    using below by simp
  then have "clientDo H config verb target (Suc via) = Inr resp"
    using Suc.IH [OF rest Suc.prems(2) Suc.prems(3)] by blast
  then show ?case
    using first target allowed by (subst clientDo.simps) simp
qed

lemma clientDo_ceiling:
  assumes "RoundTrip H verb address = Inr resp" and "Location resp = Some next"
    and "MaxRedirects config \<le> int (Suc via)"
  shows "clientDo H config verb address via = Inl TooManyRedirects"
  using assms by (subst clientDo.simps) (simp add: CheckRedirect_def)

text \<open>
  What \<^verbatim>\<open>client.Do\<close> returns, exactly: the response at the end of a chain of \<open>n\<close> redirects,
  where \<open>n\<close> is zero or less than the configured ceiling. With a ceiling of \<open>M\<close> the
  client follows \<open>M - 1\<close> redirects at most, and none when \<open>M\<close> is 1 or less.
\<close>

lemma Do_iff:
  "Do H config verb address = Inr resp \<longleftrightarrow>
     (\<exists>n final. addressAfter H verb n address = Some final
        \<and> RoundTrip H verb final = Inr resp \<and> Location resp = None
        \<and> (n = 0 \<or> int n < MaxRedirects config))"
proof
  assume returned: "Do H config verb address = Inr resp"
  then obtain n final where "addressAfter H verb n address = Some final"
    and "RoundTrip H verb final = Inr resp"
    and "n = 0 \<or> int (0 + n) < MaxRedirects config"
    using clientDo_redirects [of H config verb address 0 resp] by (auto simp: Do_def)
  then show "\<exists>n final. addressAfter H verb n address = Some final
      \<and> RoundTrip H verb final = Inr resp \<and> Location resp = None
      \<and> (n = 0 \<or> int n < MaxRedirects config)"
    using returned clientDo_final [of H config verb address 0 resp] by (auto simp: Do_def)
next
  assume "\<exists>n final. addressAfter H verb n address = Some final
      \<and> RoundTrip H verb final = Inr resp \<and> Location resp = None
      \<and> (n = 0 \<or> int n < MaxRedirects config)"
  then obtain n final where "addressAfter H verb n address = Some final"
    and "RoundTrip H verb final = Inr resp" and "Location resp = None"
    and "n = 0 \<or> int (0 + n) < MaxRedirects config"
    by auto
  then show "Do H config verb address = Inr resp"
    unfolding Do_def by (rule clientDo_follows)
qed

text \<open>
  What \<^verbatim>\<open>checkSingleLink\<close> returns, exactly: a link is classified reachable if and only if
  a request can be made for it and a chain of \<open>n\<close> redirects, \<open>n\<close> zero or less than the
  ceiling, ends in a response with a status in [200, 400). A request that cannot be made
  and an exchange that fails, whatever the cause, classify the link unreachable, and what
  a run of the pool returns is the number of probed links classified unreachable.
\<close>

lemma checkSingleLink_iff:
  "checkSingleLink H config link \<longleftrightarrow>
     NewRequest H ''HEAD'' link = None
     \<and> (\<exists>n final resp. addressAfter H ''HEAD'' n link = Some final
           \<and> RoundTrip H ''HEAD'' final = Inr resp \<and> Location resp = None
           \<and> (n = 0 \<or> int n < MaxRedirects config)
           \<and> 200 \<le> StatusCode resp \<and> StatusCode resp < 400)"
proof -
  have "checkSingleLink H config link \<longleftrightarrow>
      NewRequest H ''HEAD'' link = None
      \<and> (\<exists>resp. Do H config ''HEAD'' link = Inr resp
            \<and> 200 \<le> StatusCode resp \<and> StatusCode resp < 400)"
    by (auto simp: checkSingleLink_def split: option.splits sum.splits)
  then show ?thesis
    unfolding Do_iff by blast
qed

lemma checkSingleLink_failures:
  "NewRequest H ''HEAD'' link = Some err \<Longrightarrow> \<not> checkSingleLink H config link"
  "Do H config ''HEAD'' link = Inl err \<Longrightarrow> \<not> checkSingleLink H config link"
  by (simp_all add: checkSingleLink_def split: option.splits)

lemma checkLinksAccessibility_count:
  "checkLinksAccessibility H config links (count, ps) \<Longrightarrow>
     count = int (length (filter (\<lambda>l. \<not> checkSingleLink H config l) ps))"
  using checkLinksAccessibility_bounds [of H config links count ps]
  by (simp add: failures_def)

text \<open>In the example network, with the ceiling of 5 of the example configuration: a page
  is reachable, a link behind two redirects is reachable, a link that is not found, a
  link that redirects to itself and an address for which no request can be made are
  unreachable.\<close>

lemma checkSingleLink_examples:
  "checkSingleLink exampleHTTP exampleConfig ''https://example.com''"
  "addressAfter exampleHTTP ''HEAD'' 2 ''https://example.com/r1'' = Some ''https://example.com''"
  "checkSingleLink exampleHTTP exampleConfig ''https://example.com/r1''"
  "\<not> checkSingleLink exampleHTTP exampleConfig ''https://example.com/x''"
  "Do exampleHTTP exampleConfig ''HEAD'' ''https://example.com/loop'' = Inl TooManyRedirects"
  "\<not> checkSingleLink exampleHTTP exampleConfig ''https://example.com/loop''"
  "\<not> checkSingleLink exampleHTTP exampleConfig ''://no-scheme''"
  by code_simp+

text \<open>
  C6: the specification has a link reachable if and only if the final status, after
  following at most as many redirects as the configured ceiling, lies in [200, 400). The
  code does not do that at the ceiling: its \<^verbatim>\<open>CheckRedirect\<close> refuses a redirect as soon as
  the number of requests made, not the number of redirects followed, has reached the
  ceiling, so one redirect fewer is followed than the configuration documents
  (\<^verbatim>\<open>MaxRedirects\<close>, "Maximum redirects to follow"). In the example network
  \<^verbatim>\<open>https://example.com/r1\<close> leads through two redirects, and \<^verbatim>\<open>https://example.com/r2\<close>
  through one, to a page that answers 200. With a ceiling of 2 the first is classified
  unreachable, and with a ceiling of 1 so is the second.
\<close>

theorem C6_redirect_at_ceiling_refused:
  "addressAfter exampleHTTP ''HEAD'' 2 ''https://example.com/r1'' = Some ''https://example.com''
   \<and> addressAfter exampleHTTP ''HEAD'' 1 ''https://example.com/r2'' = Some ''https://example.com''
   \<and> RoundTrip exampleHTTP ''HEAD'' ''https://example.com''
       = Inr \<lparr>StatusCode = 200, Location = None, Body = ''page''\<rparr>
   \<and> NewRequest exampleHTTP ''HEAD'' ''https://example.com/r1'' = None
   \<and> NewRequest exampleHTTP ''HEAD'' ''https://example.com/r2'' = None
   \<and> Do exampleHTTP (exampleConfig\<lparr>MaxRedirects := 2\<rparr>) ''HEAD'' ''https://example.com/r1''
       = Inl TooManyRedirects
   \<and> \<not> checkSingleLink exampleHTTP (exampleConfig\<lparr>MaxRedirects := 2\<rparr>) ''https://example.com/r1''
   \<and> checkSingleLink exampleHTTP (exampleConfig\<lparr>MaxRedirects := 3\<rparr>) ''https://example.com/r1''
   \<and> Do exampleHTTP (exampleConfig\<lparr>MaxRedirects := 1\<rparr>) ''HEAD'' ''https://example.com/r2''
       = Inl TooManyRedirects
   \<and> \<not> checkSingleLink exampleHTTP (exampleConfig\<lparr>MaxRedirects := 1\<rparr>) ''https://example.com/r2''
   \<and> checkSingleLink exampleHTTP (exampleConfig\<lparr>MaxRedirects := 2\<rparr>) ''https://example.com/r2''"
  by code_simp

section \<open>Errors of the analysis\<close>

lemma fetchHTML_fails:
  "isl (fetchHTML H config address) \<longleftrightarrow>
     NewRequest H ''GET'' address \<noteq> None
     \<or> (case Do H config ''GET'' address of
           Inl err \<Rightarrow> True
         | Inr resp \<Rightarrow> StatusCode resp \<noteq> 200 \<or> isl (HTMLParse H (Body resp)))"
  by (auto simp: fetchHTML_def split: option.splits sum.splits)

lemma fetchPhaseFails_iff:
  "fetchPhaseFails U H config t \<longleftrightarrow>
     (case validateURL U t of
        Inl err \<Rightarrow> True
      | Inr (address, parsedURL) \<Rightarrow> isl (fetchHTML H config address))"
  by (simp add: fetchPhaseFails_def fetchHTML_fails split: sum.splits prod.splits)

lemma AnalyzeURL_returns: "\<exists>out. AnalyzeURL X U H config t out"
proof (cases "validateURL U t")
  case (Inl err)
  then show ?thesis by (blast intro: AnalyzeURL.invalid)
next
  case (Inr valid)
  then obtain address parsedURL where valid: "validateURL U t = Inr (address, parsedURL)"
    by (cases valid) simp
  show ?thesis
  proof (cases "fetchHTML H config address")
    case (Inl err)
    then show ?thesis using valid by (blast intro: AnalyzeURL.fetchFailed)
  next
    case (Inr doc)
    show ?thesis
    proof (cases "length (extractLinks U doc parsedURL) > 0")
      case False
      then show ?thesis using valid Inr by (blast intro: AnalyzeURL.nothingToCheck)
    next
      case True
      obtain n ps where "checkLinksAccessibility H config (extractLinks U doc parsedURL) (n, ps)"
        using checkLinksAccessibility_returns [of H config "extractLinks U doc parsedURL"]
        by auto
      then show ?thesis using valid Inr True by (blast intro: AnalyzeURL.checked)
    qed
  qed
qed

lemma AnalyzeURL_error_iff:
  "AnalyzeURL X U H config t out \<Longrightarrow> isl out \<longleftrightarrow> fetchPhaseFails U H config t"
  by (induction rule: AnalyzeURL.induct) (simp_all add: fetchPhaseFails_iff)

lemma AnalyzeURL_result:
  assumes "AnalyzeURL X U H config t (Inr r)"
  shows "\<exists>address parsedURL doc ps.
      validateURL U t = Inr (address, parsedURL)
      \<and> fetchHTML H config address = Inr doc
      \<and> prefix ps (extractLinks U doc parsedURL)
      \<and> r = (analyzeDocument X U doc ((newResult t)\<lparr>URL := address\<rparr>) parsedURL)
             \<lparr>InaccessibleLinks := int (failures (checkSingleLink H config) ps)\<rparr>"
  using assms
proof (cases rule: AnalyzeURL.cases)
  case (nothingToCheck address parsedURL doc)
  have "InaccessibleLinks (analyzeDocument X U doc ((newResult t)\<lparr>URL := address\<rparr>) parsedURL) = 0"
    by (simp add: analyzeDocument_fold fold_visit_InaccessibleLinks newResult_def)
  then have "r = r\<lparr>InaccessibleLinks := int (failures (checkSingleLink H config) [])\<rparr>"
    using nothingToCheck by (simp add: failures_def)
  then show ?thesis
    using nothingToCheck by (metis Nil_prefix)
next
  case (checked address parsedURL doc result n ps)
  then show ?thesis
    using checkLinksAccessibility_bounds [of H config "extractLinks U doc parsedURL" n ps]
    by blast
qed

text \<open>
  C7: the analysis always returns, and it returns an error (and no result) exactly when
  the fetch and parse phase fails: the address is invalid, the exchange fails, the status
  is not 200, or the markup does not parse. A probe that fails is never an error: it is
  counted, and the result is returned with its error field empty.
\<close>

theorem C7_errors:
  "(\<exists>outcome. AnalyzeURL X U H config t outcome)
   \<and> (AnalyzeURL X U H config t out \<longrightarrow> (isl out \<longleftrightarrow> fetchPhaseFails U H config t))
   \<and> (AnalyzeURL X U H config t (Inr r) \<longrightarrow>
        Error r = ''''
        \<and> (\<exists>ps. InaccessibleLinks r
                   = int (length (filter (\<lambda>l. \<not> checkSingleLink H config l) ps))))"
proof -
  have "Error r = '''' \<and> (\<exists>ps. InaccessibleLinks r
      = int (length (filter (\<lambda>l. \<not> checkSingleLink H config l) ps)))"
    if returned: "AnalyzeURL X U H config t (Inr r)"
  proof -
    obtain address parsedURL doc ps where
      r: "r = (analyzeDocument X U doc ((newResult t)\<lparr>URL := address\<rparr>) parsedURL)
             \<lparr>InaccessibleLinks := int (failures (checkSingleLink H config) ps)\<rparr>"
      using AnalyzeURL_result [OF returned] by blast
    have "Error r = ''''"
      unfolding r by (simp add: analyzeDocument_fold fold_visit_Error newResult_def)
    moreover have "InaccessibleLinks r
        = int (length (filter (\<lambda>l. \<not> checkSingleLink H config l) ps))"
      unfolding r by (simp add: failures_def)
    ultimately show ?thesis by blast
  qed
  then show ?thesis
    using AnalyzeURL_returns [of X U H config t] AnalyzeURL_error_iff [of X U H config t out]
    by blast
qed

theorem C7_errors_witness:
  "AnalyzeURL exampleUnicode exampleURLs exampleHTTP exampleConfig ''https://example.com''
     (Inr ((analyzeDocument exampleUnicode exampleURLs mailPage
              ((newResult ''https://example.com'')\<lparr>URL := ''https://example.com''\<rparr>) exampleBase)
           \<lparr>InaccessibleLinks := 1\<rparr>))
   \<and> \<not> checkSingleLink exampleHTTP exampleConfig ''https://example.com/x''
   \<and> \<not> fetchPhaseFails exampleURLs exampleHTTP exampleConfig ''https://example.com''
   \<and> Error ((analyzeDocument exampleUnicode exampleURLs mailPage
              ((newResult ''https://example.com'')\<lparr>URL := ''https://example.com''\<rparr>) exampleBase)
           \<lparr>InaccessibleLinks := 1\<rparr>) = ''''
   \<and> AnalyzeURL exampleUnicode exampleURLs exampleHTTP exampleConfig ''://invalid-url''
        (Inl (InvalidURL (LibError ''missing protocol scheme'')))
   \<and> fetchPhaseFails exampleURLs exampleHTTP exampleConfig ''://invalid-url''"
proof -
  have probe: "\<not> checkSingleLink exampleHTTP exampleConfig ''https://example.com/x''"
    by code_simp
  have "validateURL exampleURLs ''://invalid-url''
      = Inl (InvalidURL (LibError ''missing protocol scheme''))"
    by code_simp
  then have invalid: "AnalyzeURL exampleUnicode exampleURLs exampleHTTP exampleConfig ''://invalid-url''
      (Inl (InvalidURL (LibError ''missing protocol scheme'')))"
    by (rule AnalyzeURL.invalid)
  have fails: "fetchPhaseFails exampleURLs exampleHTTP exampleConfig ''://invalid-url''"
    using C7_errors [of exampleUnicode exampleURLs exampleHTTP exampleConfig "''://invalid-url''"
        "Inl (InvalidURL (LibError ''missing protocol scheme''))"] invalid
    by simp
  show ?thesis
    using C7_errors [of exampleUnicode exampleURLs exampleHTTP exampleConfig "''https://example.com''"
        "Inr ((analyzeDocument exampleUnicode exampleURLs mailPage
              ((newResult ''https://example.com'')\<lparr>URL := ''https://example.com''\<rparr>) exampleBase)
           \<lparr>InaccessibleLinks := 1\<rparr>)"
        "(analyzeDocument exampleUnicode exampleURLs mailPage
              ((newResult ''https://example.com'')\<lparr>URL := ''https://example.com''\<rparr>) exampleBase)
           \<lparr>InaccessibleLinks := 1\<rparr>"]
      example_analysis probe invalid fails
    by simp
qed

section \<open>Bounds on the counts\<close>

text \<open>
  C8: in every result, the unreachable-link count is the number of failed probes among the
  links probed, so it is at most the number of links probed; the links probed are among
  the links extracted for probing (a prefix of them: all of them unless the context is
  cancelled), and these are at most the internal and external links counted.
\<close>

theorem C8_count_bounds:
  "AnalyzeURL X U H config t (Inr r) \<Longrightarrow>
     \<exists>ps. prefix ps (probeSet U H config t)
       \<and> InaccessibleLinks r = int (failures (checkSingleLink H config) ps)
       \<and> 0 \<le> InaccessibleLinks r
       \<and> InaccessibleLinks r \<le> int (length ps)
       \<and> int (length ps) \<le> int (length (probeSet U H config t))
       \<and> int (length (probeSet U H config t)) \<le> InternalLinks r + ExternalLinks r"
proof -
  assume "AnalyzeURL X U H config t (Inr r)"
  then obtain address parsedURL doc ps where
    valid: "validateURL U t = Inr (address, parsedURL)"
    and fetched: "fetchHTML H config address = Inr doc"
    and ps: "prefix ps (extractLinks U doc parsedURL)"
    and r: "r = (analyzeDocument X U doc ((newResult t)\<lparr>URL := address\<rparr>) parsedURL)
             \<lparr>InaccessibleLinks := int (failures (checkSingleLink H config) ps)\<rparr>"
    using AnalyzeURL_result by blast
  have set: "probeSet U H config t = extractLinks U doc parsedURL"
    by (simp add: probeSet_def valid fetched)
  have "int (length (extractLinks U doc parsedURL)) \<le> InternalLinks r + ExternalLinks r"
    unfolding r using extractLinks_le_counted [of U doc parsedURL X]
    by (simp add: analyzeDocument_fold fold_visit_links counted_split newResult_def)
  moreover have "InaccessibleLinks r = int (failures (checkSingleLink H config) ps)"
    unfolding r by simp
  ultimately show ?thesis
    using ps prefix_length_le [OF ps] failures_le [of "checkSingleLink H config" ps]
    unfolding set by auto
qed

theorem C8_count_bounds_witness:
  "AnalyzeURL exampleUnicode exampleURLs exampleHTTP exampleConfig ''https://example.com''
     (Inr ((analyzeDocument exampleUnicode exampleURLs mailPage
              ((newResult ''https://example.com'')\<lparr>URL := ''https://example.com''\<rparr>) exampleBase)
           \<lparr>InaccessibleLinks := 1\<rparr>))
   \<and> probeSet exampleURLs exampleHTTP exampleConfig ''https://example.com''
       = [''https://example.com/x'']
   \<and> (1::int) \<le> int (length (probeSet exampleURLs exampleHTTP exampleConfig ''https://example.com''))
   \<and> int (length (probeSet exampleURLs exampleHTTP exampleConfig ''https://example.com''))
       \<le> InternalLinks (analyzeDocument exampleUnicode exampleURLs mailPage
              ((newResult ''https://example.com'')\<lparr>URL := ''https://example.com''\<rparr>) exampleBase)
         + ExternalLinks (analyzeDocument exampleUnicode exampleURLs mailPage
              ((newResult ''https://example.com'')\<lparr>URL := ''https://example.com''\<rparr>) exampleBase)"
proof -
  have set: "probeSet exampleURLs exampleHTTP exampleConfig ''https://example.com''
      = [''https://example.com/x'']"
    by (simp add: probeSet_def example_fetch)
  show ?thesis
    using C8_count_bounds [OF example_analysis] example_analysis set by auto
qed


end
